theory Spec2Isabelle
  imports Main "HOL-Library.Word"
begin

section \<open>The GSound context (gsound/gsound-context.c)\<close>

text \<open>
  GSound wraps libcanberra in a GObject. This theory embeds gsound-context.c: every
  function of the file is a HOL function over an explicit world, in which the calls the
  binding makes into libcanberra are recorded one by one.

  libcanberra and GLib are not part of the repository. libcanberra is opaque: the status
  code of each of its entry points is given by an environment, as a function of the calls
  made so far and of the call at hand. The few GLib functions the file uses (GError, GTask,
  GCancellable) follow the GLib reference manual.

  Reference counts and the freeing of memory (g_object_ref, g_object_unref,
  g_hash_table_ref, g_hash_table_unref) are not modelled. Every reference of type
  GSoundContext* designates a context object, so the type checks
  g_return_val_if_fail (GSOUND_IS_CONTEXT (self), FALSE) always pass.
\<close>

subsection \<open>Values of C\<close>

text \<open>A pointer is its address, 0 is NULL; guint has 32 bits.\<close>

type_synonym gpointer = "64 word"
type_synonym guint = "32 word"

text \<open>A const char* argument is a string, or NULL.\<close>

type_synonym cstring = "string option"

text \<open>References to the objects of the world, and the opaque handles of libcanberra.\<close>

type_synonym obj_ref = nat
type_synonym task_ref = nat
type_synonym ca_context = nat
type_synonym ca_proplist = nat

subsection \<open>libcanberra\<close>

text \<open>Status codes of canberra.h.\<close>

definition CA_SUCCESS :: int where
  "CA_SUCCESS = 0"

definition CA_ERROR_INVALID :: int where
  "CA_ERROR_INVALID = - 2"

definition CA_ERROR_OOM :: int where
  "CA_ERROR_OOM = - 4"

definition CA_ERROR_CANCELED :: int where
  "CA_ERROR_CANCELED = - 11"

definition CA_PROP_APPLICATION_NAME :: string where
  "CA_PROP_APPLICATION_NAME = ''application.name''"

definition CA_PROP_APPLICATION_ID :: string where
  "CA_PROP_APPLICATION_ID = ''application.id''"

text \<open>
  The entry points of libcanberra the file calls, with their arguments. A handle argument
  is None for NULL. The last argument of Context_play_full is the completion callback with its
  user data: None for (NULL, NULL), Some t for (on_ca_play_full_finished, t).
\<close>

datatype ca_request =
    Proplist_create
  | Proplist_sets "ca_proplist option" cstring cstring
  | Proplist_destroy "ca_proplist option"
  | Context_create
  | Context_destroy "ca_context option"
  | Context_open "ca_context option"
  | Context_set_driver "ca_context option" cstring
  | Context_change_props_full "ca_context option" "ca_proplist option"
  | Context_play_full "ca_context option" guint "ca_proplist option" "task_ref option"
  | Context_cache_full "ca_context option" "ca_proplist option"
  | Context_cancel "ca_context option" guint

text \<open>A call that has been made, with the status code it returned.\<close>

type_synonym ca_event = "ca_request \<times> int"

text \<open>
  What the binding cannot decide: the answers of libcanberra (a status code for each call,
  given the calls before it; the handle a successful creation stores; the text of
  ca_strerror), and the process-wide application identity that
  g_get_application_name and g_application_get_default read. The default application is
  None when there is none, and Some of its application id otherwise. uninitialised is what
  a local variable ca_proplist *pl holds before anything is stored in it: C leaves it
  indeterminate, so it is any pointer, NULL (None) or not.
\<close>

record environment =
  ca_status :: "ca_event list \<Rightarrow> ca_request \<Rightarrow> int"
  ca_new_context :: "ca_event list \<Rightarrow> ca_context"
  ca_new_proplist :: "ca_event list \<Rightarrow> ca_proplist"
  ca_strerror :: "int \<Rightarrow> string"
  g_get_application_name :: cstring
  g_application_get_default :: "cstring option"
  uninitialised :: "ca_proplist option"

subsection \<open>GLib: errors, tasks, cancellables\<close>

datatype gquark = GSOUND_ERROR | G_IO_ERROR

definition G_IO_ERROR_CANCELLED :: int where
  "G_IO_ERROR_CANCELLED = 19"

record GError =
  domain :: gquark
  code :: int
  message :: string

text \<open>
  An argument GError **error: None when the caller passes NULL, Some None when it points
  to an empty location, Some (Some e) when the location holds e.
\<close>

type_synonym error_out = "GError option option"

text \<open>g_set_error_literal does nothing without a location, and keeps an error already set.\<close>

fun g_set_error_literal :: "error_out \<Rightarrow> gquark \<Rightarrow> int \<Rightarrow> string \<Rightarrow> error_out" where
  "g_set_error_literal None d c m = None"
| "g_set_error_literal (Some None) d c m =
     Some (Some \<lparr>domain = d, code = c, message = m\<rparr>)"
| "g_set_error_literal (Some (Some e)) d c m = Some (Some e)"

fun g_propagate_error :: "error_out \<Rightarrow> GError \<Rightarrow> error_out" where
  "g_propagate_error None e = None"
| "g_propagate_error (Some None) e = Some (Some e)"
| "g_propagate_error (Some (Some e')) e = Some (Some e')"

text \<open>
  The fields of a GTask the file depends on. The GAsyncReadyCallback and its user data are
  opaque to the file: the world records instead, in completed, each task whose callback
  has been scheduled.
\<close>

record GTask =
  source_object :: obj_ref
  task_cancellable :: gpointer
  ever_returned :: bool
  task_error :: "GError option"
  result_set :: bool
  result_boolean :: bool

record GSoundContext =
  ca :: "ca_context option"

text \<open>
  The world: the context objects, the tasks created so far (a task reference is its
  index), the handlers connected to cancellables by g_cancellable_connect (the
  cancellable, and the context given as data), the cancellables that have been cancelled,
  the tasks whose completion has been delivered, and the calls made into libcanberra.
\<close>

record world =
  contexts :: "obj_ref \<Rightarrow> GSoundContext"
  tasks :: "GTask list"
  connections :: "(gpointer \<times> obj_ref) list"
  cancelled :: "gpointer list"
  completed :: "task_ref list"
  trace :: "ca_event list"

text \<open>A call into libcanberra: the environment answers, the world records it.\<close>

definition ca_invoke :: "environment \<Rightarrow> ca_request \<Rightarrow> world \<Rightarrow> int \<times> world" where
  "ca_invoke E r w =
     (let s = ca_status E (trace w) r in (s, w\<lparr>trace := trace w @ [(r, s)]\<rparr>))"

text \<open>
  ca_proplist_create (&pl) and ca_context_create (&c) store a handle on success and leave
  the variable as it is otherwise; the second component is the variable afterwards. Every
  caller passes the address of a local variable that it has not initialised, so after a
  failed ca_proplist_create the variable still holds the indeterminate pointer.
\<close>

definition ca_proplist_create ::
  "environment \<Rightarrow> world \<Rightarrow> int \<times> ca_proplist option \<times> world" where
  "ca_proplist_create E w =
     (case ca_invoke E Proplist_create w of
        (s, w') \<Rightarrow>
          (s, if s = CA_SUCCESS then Some (ca_new_proplist E (trace w)) else uninitialised E,
           w'))"

definition ca_context_create ::
  "environment \<Rightarrow> ca_context option \<Rightarrow> world \<Rightarrow> int \<times> ca_context option \<times> world" where
  "ca_context_create E c w =
     (case ca_invoke E Context_create w of
        (s, w') \<Rightarrow>
          (s, if s = CA_SUCCESS then Some (ca_new_context E (trace w)) else c, w'))"

definition ca_proplist_sets ::
  "environment \<Rightarrow> ca_proplist option \<Rightarrow> cstring \<Rightarrow> cstring \<Rightarrow> world \<Rightarrow> int \<times> world" where
  "ca_proplist_sets E pl key val w = ca_invoke E (Proplist_sets pl key val) w"

definition ca_proplist_destroy :: "environment \<Rightarrow> ca_proplist option \<Rightarrow> world \<Rightarrow> int \<times> world" where
  "ca_proplist_destroy E pl w = ca_invoke E (Proplist_destroy pl) w"

definition ca_context_destroy :: "environment \<Rightarrow> ca_context option \<Rightarrow> world \<Rightarrow> int \<times> world" where
  "ca_context_destroy E c w = ca_invoke E (Context_destroy c) w"

definition ca_context_open :: "environment \<Rightarrow> ca_context option \<Rightarrow> world \<Rightarrow> int \<times> world" where
  "ca_context_open E c w = ca_invoke E (Context_open c) w"

definition ca_context_set_driver ::
  "environment \<Rightarrow> ca_context option \<Rightarrow> cstring \<Rightarrow> world \<Rightarrow> int \<times> world" where
  "ca_context_set_driver E c driver w = ca_invoke E (Context_set_driver c driver) w"

definition ca_context_change_props_full ::
  "environment \<Rightarrow> ca_context option \<Rightarrow> ca_proplist option \<Rightarrow> world \<Rightarrow> int \<times> world" where
  "ca_context_change_props_full E c pl w = ca_invoke E (Context_change_props_full c pl) w"

definition ca_context_play_full ::
  "environment \<Rightarrow> ca_context option \<Rightarrow> guint \<Rightarrow> ca_proplist option \<Rightarrow> task_ref option \<Rightarrow>
   world \<Rightarrow> int \<times> world" where
  "ca_context_play_full E c ident pl cb w = ca_invoke E (Context_play_full c ident pl cb) w"

definition ca_context_cache_full ::
  "environment \<Rightarrow> ca_context option \<Rightarrow> ca_proplist option \<Rightarrow> world \<Rightarrow> int \<times> world" where
  "ca_context_cache_full E c pl w = ca_invoke E (Context_cache_full c pl) w"

definition ca_context_cancel ::
  "environment \<Rightarrow> ca_context option \<Rightarrow> guint \<Rightarrow> world \<Rightarrow> int \<times> world" where
  "ca_context_cancel E c ident w = ca_invoke E (Context_cancel c ident) w"

text \<open>
  g_clear_pointer (&pl, ca_proplist_destroy): destroys what a non-NULL variable holds.
  The variable is not read again in any caller.
\<close>

definition clear_proplist :: "environment \<Rightarrow> ca_proplist option \<Rightarrow> world \<Rightarrow> world" where
  "clear_proplist E pl w =
     (case pl of None \<Rightarrow> w | Some p \<Rightarrow> snd (ca_proplist_destroy E (Some p) w))"

text \<open>g_clear_pointer (&self->ca, ca_context_destroy): as above, and self->ca becomes NULL.\<close>

definition clear_ca :: "environment \<Rightarrow> obj_ref \<Rightarrow> world \<Rightarrow> world" where
  "clear_ca E self w =
     (case ca (contexts w self) of
        None \<Rightarrow> w
      | Some c \<Rightarrow>
          (let w' = snd (ca_context_destroy E (Some c) w)
           in w'\<lparr>contexts := (contexts w')(self := (contexts w' self)\<lparr>ca := None\<rparr>)\<rparr>))"

text \<open>g_direct_hash converts the pointer to a guint: the low 32 bits of the address.\<close>

definition g_direct_hash :: "gpointer \<Rightarrow> guint" where
  "g_direct_hash v = ucast v"

text \<open>g_task_new: a task that has not returned, owned by the source object.\<close>

definition g_task_new :: "obj_ref \<Rightarrow> gpointer \<Rightarrow> world \<Rightarrow> task_ref \<times> world" where
  "g_task_new source cancellable w =
     (length (tasks w),
      w\<lparr>tasks := tasks w @
         [\<lparr>source_object = source, task_cancellable = cancellable, ever_returned = False,
           task_error = None, result_set = False, result_boolean = False\<rparr>]\<rparr>)"

text \<open>
  g_task_return_error and g_task_return_boolean refuse (g_return_if_fail) what is not a
  task, and a task that has returned before; otherwise they store the outcome and
  schedule the task's callback.
\<close>

definition g_task_return_error :: "task_ref \<Rightarrow> GError \<Rightarrow> world \<Rightarrow> world" where
  "g_task_return_error t e w =
     (if t < length (tasks w) \<and> \<not> ever_returned (tasks w ! t)
      then w\<lparr>tasks := (tasks w)[t := (tasks w ! t)\<lparr>ever_returned := True, task_error := Some e\<rparr>],
             completed := completed w @ [t]\<rparr>
      else w)"

definition g_task_return_boolean :: "task_ref \<Rightarrow> bool \<Rightarrow> world \<Rightarrow> world" where
  "g_task_return_boolean t b w =
     (if t < length (tasks w) \<and> \<not> ever_returned (tasks w ! t)
      then w\<lparr>tasks := (tasks w)[t := (tasks w ! t)\<lparr>ever_returned := True, result_set := True,
                                                  result_boolean := b\<rparr>],
             completed := completed w @ [t]\<rparr>
      else w)"

definition g_task_return_new_error :: "task_ref \<Rightarrow> gquark \<Rightarrow> int \<Rightarrow> string \<Rightarrow> world \<Rightarrow> world" where
  "g_task_return_new_error t d c m w =
     g_task_return_error t \<lparr>domain = d, code = c, message = m\<rparr> w"

definition g_cancellable_is_cancelled :: "world \<Rightarrow> gpointer \<Rightarrow> bool" where
  "g_cancellable_is_cancelled w cancellable \<longleftrightarrow>
     cancellable \<noteq> 0 \<and> cancellable \<in> set (cancelled w)"

text \<open>error != NULL && *error != NULL.\<close>

fun error_is_set :: "error_out \<Rightarrow> bool" where
  "error_is_set (Some (Some e)) = True"
| "error_is_set _ = False"

text \<open>
  g_task_propagate_boolean refuses (g_return_val_if_fail) what is not a task and an error
  location that is already set. A task checks its cancellable first: the flag of
  g_task_set_check_cancellable is TRUE by default, and the file never clears it. Once the
  cancellable given to g_task_new has been cancelled, the task counts as failed with
  G_IO_ERROR_CANCELLED ("Operation was cancelled"), whatever error or value it returned.
  Otherwise the stored error is handed over (g_propagate_error), or the stored boolean.
\<close>

definition g_task_propagate_boolean ::
  "task_ref \<Rightarrow> error_out \<Rightarrow> world \<Rightarrow> bool \<times> error_out \<times> world" where
  "g_task_propagate_boolean t error w =
     (if \<not> t < length (tasks w) then (False, error, w)
      else if error_is_set error then (False, error, w)
      else if g_cancellable_is_cancelled w (task_cancellable (tasks w ! t))
      then (False,
            g_set_error_literal error G_IO_ERROR G_IO_ERROR_CANCELLED ''Operation was cancelled'',
            w)
      else (case task_error (tasks w ! t) of
              Some e \<Rightarrow>
                (False, g_propagate_error error e,
                 w\<lparr>tasks := (tasks w)[t := (tasks w ! t)\<lparr>task_error := None\<rparr>]\<rparr>)
            | None \<Rightarrow>
                if \<not> result_set (tasks w ! t) then (False, error, w)
                else (result_boolean (tasks w ! t), error,
                      w\<lparr>tasks := (tasks w)[t := (tasks w ! t)\<lparr>result_set := False\<rparr>]\<rparr>)))"

definition g_task_is_valid :: "world \<Rightarrow> task_ref \<Rightarrow> obj_ref \<Rightarrow> bool" where
  "g_task_is_valid w result source \<longleftrightarrow>
     result < length (tasks w) \<and> source_object (tasks w ! result) = source"

subsection \<open>The static helpers of gsound-context.c\<close>

definition test_return :: "environment \<Rightarrow> int \<Rightarrow> error_out \<Rightarrow> bool \<times> error_out" where
  "test_return E c error =
     (if c = CA_SUCCESS then (True, error)
      else (False, g_set_error_literal error GSOUND_ERROR c (ca_strerror E c)))"

text \<open>
  A GHashTable is the list of its entries in the order the iterator yields them; a stored
  pointer may be NULL.
\<close>

type_synonym ghash_table = "(cstring \<times> cstring) list"

fun hash_table_to_prop_list ::
  "environment \<Rightarrow> ghash_table \<Rightarrow> ca_proplist option \<Rightarrow> world \<Rightarrow> world" where
  "hash_table_to_prop_list E [] pl w = w"
| "hash_table_to_prop_list E ((key, val) # ht) pl w =
     hash_table_to_prop_list E ht pl (snd (ca_proplist_sets E pl key val w))"

text \<open>
  A va_list is the list of the arguments that precede the NULL that ends the call, so
  va_arg yields NULL at the end of the list. An argument may itself be NULL.
\<close>

type_synonym va_list = "cstring list"

fun var_args_to_prop_list ::
  "environment \<Rightarrow> va_list \<Rightarrow> ca_proplist option \<Rightarrow> world \<Rightarrow> int \<times> world" where
  "var_args_to_prop_list E [] pl w = (CA_SUCCESS, w)"
| "var_args_to_prop_list E (None # args) pl w = (CA_SUCCESS, w)"
| "var_args_to_prop_list E [Some key] pl w = (CA_ERROR_INVALID, w)"
| "var_args_to_prop_list E (Some key # None # args) pl w = (CA_ERROR_INVALID, w)"
| "var_args_to_prop_list E (Some key # Some val # args) pl w =
     (case ca_proplist_sets E pl (Some key) (Some val) w of
        (res, w') \<Rightarrow>
          if res \<noteq> CA_SUCCESS then (res, w') else var_args_to_prop_list E args pl w')"

definition on_ca_play_full_finished ::
  "environment \<Rightarrow> ca_context option \<Rightarrow> guint \<Rightarrow> int \<Rightarrow> task_ref \<Rightarrow> world \<Rightarrow> world" where
  "on_ca_play_full_finished E c ident error_code task w =
     (if error_code \<noteq> CA_SUCCESS
      then g_task_return_new_error task GSOUND_ERROR error_code (ca_strerror E error_code) w
      else g_task_return_boolean task True w)"

definition on_cancellable_cancelled :: "environment \<Rightarrow> gpointer \<Rightarrow> obj_ref \<Rightarrow> world \<Rightarrow> world" where
  "on_cancellable_cancelled E cancellable self w =
     snd (ca_context_cancel E (ca (contexts w self)) (g_direct_hash cancellable) w)"

text \<open>
  g_cancellable_connect with the callback on_cancellable_cancelled, the only one the file
  connects: a cancellable that is already cancelled runs the callback at once, another
  one keeps the handler. g_cancellable_cancel marks the cancellable and runs its handlers
  in the order of connection; it does nothing for NULL or a second time.
\<close>

definition g_cancellable_connect ::
  "environment \<Rightarrow> gpointer \<Rightarrow> obj_ref \<Rightarrow> world \<Rightarrow> world" where
  "g_cancellable_connect E cancellable data w =
     (if g_cancellable_is_cancelled w cancellable
      then on_cancellable_cancelled E cancellable data w
      else w\<lparr>connections := connections w @ [(cancellable, data)]\<rparr>)"

fun run_handlers :: "environment \<Rightarrow> gpointer \<Rightarrow> obj_ref list \<Rightarrow> world \<Rightarrow> world" where
  "run_handlers E cancellable [] w = w"
| "run_handlers E cancellable (data # hs) w =
     run_handlers E cancellable hs (on_cancellable_cancelled E cancellable data w)"

definition g_cancellable_cancel :: "environment \<Rightarrow> gpointer \<Rightarrow> world \<Rightarrow> world" where
  "g_cancellable_cancel E cancellable w =
     (if cancellable = 0 \<or> cancellable \<in> set (cancelled w) then w
      else run_handlers E cancellable
             (map snd (filter (\<lambda>h. fst h = cancellable) (connections w)))
             (w\<lparr>cancelled := cancellable # cancelled w\<rparr>))"

subsection \<open>The public functions of gsound-context.c\<close>

definition gsound_context_open ::
  "environment \<Rightarrow> obj_ref \<Rightarrow> error_out \<Rightarrow> world \<Rightarrow> bool \<times> error_out \<times> world" where
  "gsound_context_open E self error w =
     (case ca_context_open E (ca (contexts w self)) w of
        (res, w1) \<Rightarrow> (case test_return E res error of (ok, error1) \<Rightarrow> (ok, error1, w1)))"

definition gsound_context_set_driver ::
  "environment \<Rightarrow> obj_ref \<Rightarrow> cstring \<Rightarrow> error_out \<Rightarrow> world \<Rightarrow> bool \<times> error_out \<times> world" where
  "gsound_context_set_driver E self driver error w =
     (case ca_context_set_driver E (ca (contexts w self)) driver w of
        (res, w1) \<Rightarrow> (case test_return E res error of (ok, error1) \<Rightarrow> (ok, error1, w1)))"

text \<open>
  The variadic functions call var_args_to_prop_list and drop the status it returns: they go
  on to the native call whatever the list was.
\<close>

definition gsound_context_change_attrs ::
  "environment \<Rightarrow> obj_ref \<Rightarrow> error_out \<Rightarrow> va_list \<Rightarrow> world \<Rightarrow> bool \<times> error_out \<times> world" where
  "gsound_context_change_attrs E self error args w =
     (case ca_proplist_create E w of
        (res, pl, w1) \<Rightarrow>
          if res \<noteq> CA_SUCCESS
          then (case test_return E res error of (ok, error1) \<Rightarrow> (ok, error1, w1))
          else
            (case var_args_to_prop_list E args pl w1 of
               (dropped, w2) \<Rightarrow>
                 (case ca_context_change_props_full E (ca (contexts w2 self)) pl w2 of
                    (res2, w3) \<Rightarrow>
                      (case test_return E res2 error of
                         (ok, error1) \<Rightarrow> (ok, error1, clear_proplist E pl w3)))))"

definition gsound_context_change_attrsv ::
  "environment \<Rightarrow> obj_ref \<Rightarrow> ghash_table \<Rightarrow> error_out \<Rightarrow> world \<Rightarrow> bool \<times> error_out \<times> world" where
  "gsound_context_change_attrsv E self attrs error w =
     (case ca_proplist_create E w of
        (res, pl, w1) \<Rightarrow>
          (case test_return E res error of
             (ok, error1) \<Rightarrow>
               if \<not> ok then (False, error1, w1)
               else
                 (let w2 = hash_table_to_prop_list E attrs pl w1
                  in case ca_context_change_props_full E (ca (contexts w2 self)) pl w2 of
                       (res2, w3) \<Rightarrow>
                         (case test_return E res2 error1 of
                            (ok2, error2) \<Rightarrow> (ok2, error2, clear_proplist E pl w3)))))"

text \<open>
  The four play functions submit with the token g_direct_hash (cancellable), then connect
  on_cancellable_cancelled to a cancellable that is not NULL, whatever the submission
  returned.
\<close>

definition connect_if_cancellable ::
  "environment \<Rightarrow> gpointer \<Rightarrow> obj_ref \<Rightarrow> world \<Rightarrow> world" where
  "connect_if_cancellable E cancellable self w =
     (if cancellable \<noteq> 0 then g_cancellable_connect E cancellable self w else w)"

definition gsound_context_play_simple ::
  "environment \<Rightarrow> obj_ref \<Rightarrow> gpointer \<Rightarrow> error_out \<Rightarrow> va_list \<Rightarrow> world \<Rightarrow>
   bool \<times> error_out \<times> world" where
  "gsound_context_play_simple E self cancellable error args w =
     (case ca_proplist_create E w of
        (res, pl, w1) \<Rightarrow>
          if res \<noteq> CA_SUCCESS
          then (case test_return E res error of (ok, error1) \<Rightarrow> (ok, error1, w1))
          else
            (case var_args_to_prop_list E args pl w1 of
               (dropped, w2) \<Rightarrow>
                 (case ca_context_play_full E (ca (contexts w2 self))
                         (g_direct_hash cancellable) pl None w2 of
                    (res2, w3) \<Rightarrow>
                      (let w4 = connect_if_cancellable E cancellable self w3;
                           w5 = clear_proplist E pl w4
                       in case test_return E res2 error of
                            (ok, error1) \<Rightarrow> (ok, error1, w5)))))"

definition gsound_context_play_simplev ::
  "environment \<Rightarrow> obj_ref \<Rightarrow> ghash_table \<Rightarrow> gpointer \<Rightarrow> error_out \<Rightarrow> world \<Rightarrow>
   bool \<times> error_out \<times> world" where
  "gsound_context_play_simplev E self attrs cancellable error w =
     (case ca_proplist_create E w of
        (res, pl, w1) \<Rightarrow>
          (case test_return E res error of
             (ok, error1) \<Rightarrow>
               if \<not> ok then (False, error1, w1)
               else
                 (let w2 = hash_table_to_prop_list E attrs pl w1
                  in case ca_context_play_full E (ca (contexts w2 self))
                            (g_direct_hash cancellable) pl None w2 of
                       (res2, w3) \<Rightarrow>
                         (let w4 = connect_if_cancellable E cancellable self w3;
                              w5 = clear_proplist E pl w4
                          in case test_return E res2 error1 of
                               (ok2, error2) \<Rightarrow> (ok2, error2, w5)))))"

text \<open>
  gsound_context_play_full returns nothing; the model returns the task it created, which
  the caller receives in its GAsyncReadyCallback. The local inner_error starts as NULL.
\<close>

definition gsound_context_play_full ::
  "environment \<Rightarrow> obj_ref \<Rightarrow> gpointer \<Rightarrow> va_list \<Rightarrow> world \<Rightarrow> task_ref \<times> world" where
  "gsound_context_play_full E self cancellable args w =
     (case g_task_new self cancellable w of
        (task, w0) \<Rightarrow>
          (case ca_proplist_create E w0 of
             (res, proplist, w1) \<Rightarrow>
               (case test_return E res (Some None) of
                  (ok, inner_error) \<Rightarrow>
                    if \<not> ok
                    then (case inner_error of
                            Some (Some e) \<Rightarrow> (task, g_task_return_error task e w1)
                          | _ \<Rightarrow> (task, w1))
                    else
                      (case var_args_to_prop_list E args proplist w1 of
                         (dropped, w2) \<Rightarrow>
                           (case ca_context_play_full E (ca (contexts w2 self))
                                   (g_direct_hash cancellable) proplist (Some task) w2 of
                              (res2, w3) \<Rightarrow>
                                (let w4 = connect_if_cancellable E cancellable self w3;
                                     w5 = clear_proplist E proplist w4
                                 in case test_return E res2 inner_error of
                                      (ok2, inner_error2) \<Rightarrow>
                                        if \<not> ok2
                                        then (case inner_error2 of
                                                Some (Some e) \<Rightarrow>
                                                  (task, g_task_return_error task e w5)
                                              | _ \<Rightarrow> (task, w5))
                                        else (task, w5)))))))"

definition gsound_context_play_fullv ::
  "environment \<Rightarrow> obj_ref \<Rightarrow> ghash_table \<Rightarrow> gpointer \<Rightarrow> world \<Rightarrow> task_ref \<times> world" where
  "gsound_context_play_fullv E self attrs cancellable w =
     (case g_task_new self cancellable w of
        (task, w0) \<Rightarrow>
          (case ca_proplist_create E w0 of
             (res, proplist, w1) \<Rightarrow>
               (case test_return E res (Some None) of
                  (ok, inner_error) \<Rightarrow>
                    if \<not> ok
                    then (case inner_error of
                            Some (Some e) \<Rightarrow> (task, g_task_return_error task e w1)
                          | _ \<Rightarrow> (task, w1))
                    else
                      (let w2 = hash_table_to_prop_list E attrs proplist w1
                       in case ca_context_play_full E (ca (contexts w2 self))
                                 (g_direct_hash cancellable) proplist (Some task) w2 of
                            (res2, w3) \<Rightarrow>
                              (let w4 = connect_if_cancellable E cancellable self w3;
                                   w5 = clear_proplist E proplist w4
                               in case test_return E res2 inner_error of
                                    (ok2, inner_error2) \<Rightarrow>
                                      if \<not> ok2
                                      then (case inner_error2 of
                                              Some (Some e) \<Rightarrow>
                                                (task, g_task_return_error task e w5)
                                            | _ \<Rightarrow> (task, w5))
                                      else (task, w5))))))"

definition gsound_context_play_full_finish ::
  "obj_ref \<Rightarrow> task_ref \<Rightarrow> error_out \<Rightarrow> world \<Rightarrow> bool \<times> error_out \<times> world" where
  "gsound_context_play_full_finish self result error w =
     (if \<not> g_task_is_valid w result self then (False, error, w)
      else g_task_propagate_boolean result error w)"

definition gsound_context_cache ::
  "environment \<Rightarrow> obj_ref \<Rightarrow> error_out \<Rightarrow> va_list \<Rightarrow> world \<Rightarrow> bool \<times> error_out \<times> world" where
  "gsound_context_cache E self error args w =
     (case ca_proplist_create E w of
        (res, pl, w1) \<Rightarrow>
          if res \<noteq> CA_SUCCESS
          then (case test_return E res error of (ok, error1) \<Rightarrow> (ok, error1, w1))
          else
            (case var_args_to_prop_list E args pl w1 of
               (dropped, w2) \<Rightarrow>
                 (case ca_context_cache_full E (ca (contexts w2 self)) pl w2 of
                    (res2, w3) \<Rightarrow>
                      (case test_return E res2 error of
                         (ok, error1) \<Rightarrow> (ok, error1, clear_proplist E pl w3)))))"

definition gsound_context_cachev ::
  "environment \<Rightarrow> obj_ref \<Rightarrow> ghash_table \<Rightarrow> error_out \<Rightarrow> world \<Rightarrow> bool \<times> error_out \<times> world" where
  "gsound_context_cachev E self attrs error w =
     (case ca_proplist_create E w of
        (res, proplist, w1) \<Rightarrow>
          (case test_return E res error of
             (ok, error1) \<Rightarrow>
               if \<not> ok then (False, error1, w1)
               else
                 (let w2 = hash_table_to_prop_list E attrs proplist w1
                  in case ca_context_cache_full E (ca (contexts w2 self)) proplist w2 of
                       (res2, w3) \<Rightarrow>
                         (case test_return E res2 error1 of
                            (ok2, error2) \<Rightarrow> (ok2, error2, clear_proplist E proplist w3)))))"

text \<open>
  gsound_context_real_init, the GInitable init of the context. The status of
  ca_proplist_create is not looked at, nor are those of the two ca_proplist_sets: when the
  creation fails, the indeterminate pointer of the local pl goes to ca_proplist_sets and
  ca_context_change_props_full, and to ca_proplist_destroy unless it is NULL. When the
  commit of the defaults fails, test_return writes the caller's error, the handle is
  destroyed, and TRUE is returned all the same.
\<close>

definition gsound_context_real_init ::
  "environment \<Rightarrow> obj_ref \<Rightarrow> gpointer \<Rightarrow> error_out \<Rightarrow> world \<Rightarrow> bool \<times> error_out \<times> world" where
  "gsound_context_real_init E self cancellable error w =
     (if ca (contexts w self) \<noteq> None then (True, error, w)
      else
        (case ca_context_create E (ca (contexts w self)) w of
           (success, c, w0) \<Rightarrow>
             (let w1 = w0\<lparr>contexts := (contexts w0)(self := (contexts w0 self)\<lparr>ca := c\<rparr>)\<rparr>
              in case test_return E success error of
                   (ok, error1) \<Rightarrow>
                     if \<not> ok then (False, error1, w1)
                     else
                       (case ca_proplist_create E w1 of
                          (unchecked, pl, w2) \<Rightarrow>
                            (let w3 = snd (ca_proplist_sets E pl (Some CA_PROP_APPLICATION_NAME)
                                             (g_get_application_name E) w2);
                                 w4 = (case g_application_get_default E of
                                         None \<Rightarrow> w3
                                       | Some application_id \<Rightarrow>
                                           snd (ca_proplist_sets E pl (Some CA_PROP_APPLICATION_ID)
                                                  application_id w3))
                             in case ca_context_change_props_full E (ca (contexts w4 self)) pl w4 of
                                  (success2, w5) \<Rightarrow>
                                    (let w6 = clear_proplist E pl w5
                                     in case test_return E success2 error1 of
                                          (ok2, error2) \<Rightarrow>
                                            if \<not> ok2 then (True, error2, clear_ca E self w6)
                                            else (True, error2, w6)))))))"

text \<open>
  gsound_context_finalize destroys the handle. gsound_context_new is g_initable_new: the
  object it allocates, at the address self, starts with ca == NULL; when the init function
  returns FALSE the object is released and NULL is returned.
\<close>

definition gsound_context_finalize :: "environment \<Rightarrow> obj_ref \<Rightarrow> world \<Rightarrow> world" where
  "gsound_context_finalize E self w = clear_ca E self w"

definition gsound_context_new ::
  "environment \<Rightarrow> obj_ref \<Rightarrow> gpointer \<Rightarrow> error_out \<Rightarrow> world \<Rightarrow>
   obj_ref option \<times> error_out \<times> world" where
  "gsound_context_new E self cancellable error w =
     (case gsound_context_real_init E self cancellable error
             (w\<lparr>contexts := (contexts w)(self := \<lparr>ca = None\<rparr>)\<rparr>) of
        (ok, error1, w1) \<Rightarrow>
          if ok then (Some self, error1, w1)
          else (None, error1, gsound_context_finalize E self w1))"

subsection \<open>Reading the trace\<close>

text \<open>The calls made into libcanberra between two worlds.\<close>

definition events_since :: "world \<Rightarrow> world \<Rightarrow> ca_event list" where
  "events_since w w' = drop (length (trace w)) (trace w')"

text \<open>
  The submissions among a list of calls: of ca_context_play_full the token, the callback
  and the status; of ca_context_change_props_full and ca_context_cache_full the status; of
  ca_context_cancel the handle and the token.
\<close>

fun plays :: "ca_event list \<Rightarrow> (guint \<times> task_ref option \<times> int) list" where
  "plays [] = []"
| "plays ((Context_play_full c tok pl cb, s) # evs) = (tok, cb, s) # plays evs"
| "plays (e # evs) = plays evs"

fun commits :: "ca_event list \<Rightarrow> int list" where
  "commits [] = []"
| "commits ((Context_change_props_full c pl, s) # evs) = s # commits evs"
| "commits (e # evs) = commits evs"

fun caches :: "ca_event list \<Rightarrow> int list" where
  "caches [] = []"
| "caches ((Context_cache_full c pl, s) # evs) = s # caches evs"
| "caches (e # evs) = caches evs"

fun cancels :: "ca_event list \<Rightarrow> (ca_context option \<times> guint) list" where
  "cancels [] = []"
| "cancels ((Context_cancel c tok, s) # evs) = (c, tok) # cancels evs"
| "cancels (e # evs) = cancels evs"

fun creations :: "ca_event list \<Rightarrow> int list" where
  "creations [] = []"
| "creations ((Context_create, s) # evs) = s # creations evs"
| "creations (e # evs) = creations evs"

text \<open>
  Calls among which there is no submission, and a step of the world that makes only such
  calls and leaves the contexts and the tasks alone.
\<close>

definition silent :: "ca_event list \<Rightarrow> bool" where
  "silent evs \<longleftrightarrow> plays evs = [] \<and> commits evs = [] \<and> caches evs = []"

definition quiet :: "world \<Rightarrow> world \<Rightarrow> bool" where
  "quiet w w' \<longleftrightarrow>
     (\<exists>evs. trace w' = trace w @ evs \<and> silent evs) \<and>
     contexts w' = contexts w \<and> tasks w' = tasks w \<and> completed w' = completed w"

text \<open>A task is pending until one of the g_task_return functions has accepted an outcome.\<close>

definition pending :: "world \<Rightarrow> task_ref \<Rightarrow> bool" where
  "pending w t \<longleftrightarrow> t < length (tasks w) \<and> \<not> ever_returned (tasks w ! t)"

definition resolved :: "world \<Rightarrow> task_ref \<Rightarrow> bool" where
  "resolved w t \<longleftrightarrow> t < length (tasks w) \<and> ever_returned (tasks w ! t)"

subsection \<open>The binding as a transition system\<close>

text \<open>
  What can happen to a world: a call of one of the functions of the file, the cancellation
  of a cancellable (g_cancellable_cancel), and libcanberra running the completion callback
  on_ca_play_full_finished that a play was submitted with.
\<close>

datatype action =
    Init obj_ref gpointer error_out
  | Open obj_ref error_out
  | Set_driver obj_ref cstring error_out
  | Change_attrs obj_ref error_out va_list
  | Change_attrsv obj_ref ghash_table error_out
  | Play_simple obj_ref gpointer error_out va_list
  | Play_simplev obj_ref ghash_table gpointer error_out
  | Play_full obj_ref gpointer va_list
  | Play_fullv obj_ref ghash_table gpointer
  | Play_full_finish obj_ref task_ref error_out
  | Cache obj_ref error_out va_list
  | Cachev obj_ref ghash_table error_out
  | Finalize obj_ref
  | Cancel gpointer
  | Completion "ca_context option" guint int task_ref

fun step :: "environment \<Rightarrow> action \<Rightarrow> world \<Rightarrow> world" where
  "step E (Init self c error) w = snd (snd (gsound_context_real_init E self c error w))"
| "step E (Open self error) w = snd (snd (gsound_context_open E self error w))"
| "step E (Set_driver self driver error) w =
     snd (snd (gsound_context_set_driver E self driver error w))"
| "step E (Change_attrs self error args) w =
     snd (snd (gsound_context_change_attrs E self error args w))"
| "step E (Change_attrsv self attrs error) w =
     snd (snd (gsound_context_change_attrsv E self attrs error w))"
| "step E (Play_simple self c error args) w =
     snd (snd (gsound_context_play_simple E self c error args w))"
| "step E (Play_simplev self attrs c error) w =
     snd (snd (gsound_context_play_simplev E self attrs c error w))"
| "step E (Play_full self c args) w = snd (gsound_context_play_full E self c args w)"
| "step E (Play_fullv self attrs c) w = snd (gsound_context_play_fullv E self attrs c w)"
| "step E (Play_full_finish self result error) w =
     snd (snd (gsound_context_play_full_finish self result error w))"
| "step E (Cache self error args) w = snd (snd (gsound_context_cache E self error args w))"
| "step E (Cachev self attrs error) w = snd (snd (gsound_context_cachev E self attrs error w))"
| "step E (Finalize self) w = gsound_context_finalize E self w"
| "step E (Cancel c) w = g_cancellable_cancel E c w"
| "step E (Completion c ident error_code task) w =
     on_ca_play_full_finished E c ident error_code task w"

subsection \<open>Example environments and worlds\<close>

definition strerror_example :: "int \<Rightarrow> string" where
  "strerror_example c =
     (if c = CA_SUCCESS then ''Success''
      else if c = CA_ERROR_INVALID then ''Invalid argument''
      else if c = CA_ERROR_OOM then ''Out of memory''
      else if c = CA_ERROR_CANCELED then ''Canceled''
      else ''Unknown error'')"

text \<open>A libcanberra that accepts every call, and hands out the handles 1 and 2.\<close>

definition accepting_env :: environment where
  "accepting_env =
     \<lparr>ca_status = (\<lambda>tr r. CA_SUCCESS),
      ca_new_context = (\<lambda>tr. 1),
      ca_new_proplist = (\<lambda>tr. 2),
      ca_strerror = strerror_example,
      g_get_application_name = Some ''player'',
      g_application_get_default = None,
      uninitialised = None\<rparr>"

text \<open>One that refuses ca_context_change_props_full, and accepts every other call.\<close>

definition commit_refusing_env :: environment where
  "commit_refusing_env =
     accepting_env\<lparr>ca_status :=
       (\<lambda>tr r. case r of Context_change_props_full c pl \<Rightarrow> CA_ERROR_INVALID | _ \<Rightarrow> CA_SUCCESS)\<rparr>"

text \<open>One that cannot create the context, one that cannot create a property list.\<close>

definition create_refusing_env :: environment where
  "create_refusing_env =
     accepting_env\<lparr>ca_status :=
       (\<lambda>tr r. case r of Context_create \<Rightarrow> CA_ERROR_OOM | _ \<Rightarrow> CA_SUCCESS)\<rparr>"

definition oom_env :: environment where
  "oom_env =
     accepting_env\<lparr>ca_status :=
       (\<lambda>tr r. case r of Proplist_create \<Rightarrow> CA_ERROR_OOM | _ \<Rightarrow> CA_SUCCESS)\<rparr>"

text \<open>A world of contexts that are not initialised, and one whose contexts hold the handle 1.\<close>

definition fresh_world :: world where
  "fresh_world =
     \<lparr>contexts = (\<lambda>r. \<lparr>ca = None\<rparr>), tasks = [], connections = [], cancelled = [],
      completed = [], trace = []\<rparr>"

definition live_world :: world where
  "live_world = fresh_world\<lparr>contexts := (\<lambda>r. \<lparr>ca = Some 1\<rparr>)\<rparr>"

text \<open>One that refuses ca_context_play_full, and accepts every other call.\<close>

definition play_refusing_env :: environment where
  "play_refusing_env =
     accepting_env\<lparr>ca_status :=
       (\<lambda>tr r. case r of Context_play_full h tok pl cb \<Rightarrow> CA_ERROR_INVALID | _ \<Rightarrow> CA_SUCCESS)\<rparr>"

text \<open>
  One that, like libcanberra itself, refuses ca_proplist_sets with a NULL key or value.
\<close>

definition strict_env :: environment where
  "strict_env =
     accepting_env\<lparr>ca_status :=
       (\<lambda>tr r. case r of
                  Proplist_sets pl None v \<Rightarrow> CA_ERROR_INVALID
                | Proplist_sets pl (Some k) None \<Rightarrow> CA_ERROR_INVALID
                | _ \<Rightarrow> CA_SUCCESS)\<rparr>"

text \<open>
  The world after gsound_context_play_full (ctx, cancellable, cb, data, "event.id", "bell",
  NULL) with the cancellable at address 16, and that world after the cancellable has been
  cancelled and libcanberra has completed the play with CA_ERROR_CANCELED.
\<close>

definition played_world :: world where
  "played_world =
     snd (gsound_context_play_full accepting_env 0 16 [Some ''event.id'', Some ''bell'']
            live_world)"


section \<open>Properties\<close>

lemmas native_defs =
  ca_invoke_def ca_proplist_create_def ca_context_create_def ca_proplist_sets_def
  ca_proplist_destroy_def ca_context_destroy_def ca_context_open_def
  ca_context_set_driver_def ca_context_change_props_full_def ca_context_play_full_def
  ca_context_cache_full_def ca_context_cancel_def

lemmas example_defs =
  accepting_env_def fresh_world_def live_world_def strerror_example_def
  CA_SUCCESS_def CA_ERROR_INVALID_def CA_ERROR_OOM_def CA_ERROR_CANCELED_def

subsection \<open>What each function does to the trace\<close>

lemma plays_append: "plays (xs @ ys) = plays xs @ plays ys"
  by (induction xs rule: plays.induct) simp_all

lemma commits_append: "commits (xs @ ys) = commits xs @ commits ys"
  by (induction xs rule: commits.induct) simp_all

lemma caches_append: "caches (xs @ ys) = caches xs @ caches ys"
  by (induction xs rule: caches.induct) simp_all

lemma cancels_append: "cancels (xs @ ys) = cancels xs @ cancels ys"
  by (induction xs rule: cancels.induct) simp_all

lemma silent_append: "silent xs \<Longrightarrow> silent ys \<Longrightarrow> silent (xs @ ys)"
  by (simp add: silent_def plays_append commits_append caches_append)

lemma quiet_refl: "quiet w w"
  by (simp add: quiet_def silent_def)

lemma quiet_trans: "quiet w1 w2 \<Longrightarrow> quiet w2 w3 \<Longrightarrow> quiet w1 w3"
  unfolding quiet_def using silent_append by fastforce

lemma quiet_sets: "quiet w (snd (ca_proplist_sets E pl key val w))"
  by (simp add: quiet_def silent_def native_defs Let_def)

lemma quiet_hash_table: "quiet w (hash_table_to_prop_list E ht pl w)"
proof (induction ht arbitrary: w)
  case Nil
  show ?case by (simp add: quiet_refl)
next
  case (Cons kv ht)
  obtain key val where kv: "kv = (key, val)" by (cases kv)
  show ?case
    using quiet_trans [OF quiet_sets Cons.IH] by (simp add: kv)
qed

lemma quiet_var_args: "quiet w (snd (var_args_to_prop_list E args pl w))"
proof (induction E args pl w rule: var_args_to_prop_list.induct)
  case (5 E key val args pl w)
  let ?r = "ca_proplist_sets E pl (Some key) (Some val) w"
  have r: "?r = (fst ?r, snd ?r)" by simp
  show ?case
  proof (cases "fst ?r \<noteq> CA_SUCCESS")
    case True
    then show ?thesis using quiet_sets [of w E pl "Some key" "Some val"]
      by (simp add: case_prod_unfold)
  next
    case False
    from "5.IH" [OF r [symmetric] False]
    have "quiet (snd ?r) (snd (var_args_to_prop_list E args pl (snd ?r)))" .
    with quiet_sets [of w E pl "Some key" "Some val"] False show ?thesis
      by (simp add: case_prod_unfold quiet_trans)
  qed
qed (simp_all add: quiet_refl)

lemma quiet_clear: "quiet w (clear_proplist E pl w)"
  by (cases pl) (simp_all add: clear_proplist_def quiet_def silent_def native_defs Let_def)

lemma quiet_cancelled: "quiet w (on_cancellable_cancelled E c self w)"
  by (simp add: on_cancellable_cancelled_def quiet_def silent_def native_defs Let_def)

lemma quiet_connect: "quiet w (connect_if_cancellable E c self w)"
  using quiet_cancelled [of w E c self]
  by (simp add: connect_if_cancellable_def g_cancellable_connect_def quiet_def silent_def)

lemma around_submission:
  assumes "quiet w w2" and "quiet (snd (ca_invoke E r w2)) w5"
  shows "plays (events_since w w5) = plays [(r, ca_status E (trace w2) r)]"
    and "commits (events_since w w5) = commits [(r, ca_status E (trace w2) r)]"
    and "caches (events_since w w5) = caches [(r, ca_status E (trace w2) r)]"
    and "tasks w5 = tasks w" and "completed w5 = completed w" and "contexts w5 = contexts w"
proof -
  let ?e = "(r, ca_status E (trace w2) r)"
  from assms(1) obtain evs where evs: "trace w2 = trace w @ evs" "silent evs"
    by (auto simp add: quiet_def)
  from assms(2) obtain evs' where evs': "trace w5 = (trace w2 @ [?e]) @ evs'" "silent evs'"
    by (auto simp add: quiet_def ca_invoke_def Let_def)
  have since: "events_since w w5 = evs @ ([?e] @ evs')"
    by (simp add: events_since_def evs(1) evs'(1))
  show "plays (events_since w w5) = plays [?e]"
    using evs(2) evs'(2) unfolding since plays_append by (simp add: silent_def)
  show "commits (events_since w w5) = commits [?e]"
    using evs(2) evs'(2) unfolding since commits_append by (simp add: silent_def)
  show "caches (events_since w w5) = caches [?e]"
    using evs(2) evs'(2) unfolding since caches_append by (simp add: silent_def)
  show "tasks w5 = tasks w" "completed w5 = completed w" "contexts w5 = contexts w"
    using assms by (simp_all add: quiet_def ca_invoke_def Let_def)
qed


lemma quiet_proplist_create: "quiet w (snd (snd (ca_proplist_create E w)))"
  by (simp add: quiet_def silent_def native_defs Let_def)

lemma fst_proplist_create: "fst (ca_proplist_create E w) = ca_status E (trace w) Proplist_create"
  by (simp add: native_defs Let_def)

lemma trace_proplist_create:
  "trace (snd (snd (ca_proplist_create E w))) =
     trace w @ [(Proplist_create, ca_status E (trace w) Proplist_create)]"
  by (simp add: native_defs Let_def)

lemma play_simple_summary:
  "case gsound_context_play_simple E self c error args w of
     (ok, error', w') \<Rightarrow>
       (if ca_status E (trace w) Proplist_create = CA_SUCCESS
        then \<exists>s. plays (events_since w w') = [(g_direct_hash c, None, s)] \<and>
                 (ok, error') = test_return E s error
        else plays (events_since w w') = [] \<and> \<not> ok) \<and>
       tasks w' = tasks w \<and> completed w' = completed w"
proof (cases "ca_status E (trace w) Proplist_create = CA_SUCCESS")
  case False
  then show ?thesis
    by (simp add: gsound_context_play_simple_def case_prod_unfold fst_proplist_create
        test_return_def events_since_def trace_proplist_create)
      (simp add: native_defs Let_def)
next
  case True
  let ?pl = "fst (snd (ca_proplist_create E w))"
  let ?w1 = "snd (snd (ca_proplist_create E w))"
  let ?w2 = "snd (var_args_to_prop_list E args ?pl ?w1)"
  let ?r = "Context_play_full (ca (contexts ?w2 self)) (g_direct_hash c) ?pl None"
  let ?w3 = "snd (ca_invoke E ?r ?w2)"
  let ?w5 = "clear_proplist E ?pl (connect_if_cancellable E c self ?w3)"
  let ?s = "ca_status E (trace ?w2) ?r"
  have run: "gsound_context_play_simple E self c error args w =
      (fst (test_return E ?s error), snd (test_return E ?s error), ?w5)"
    using True
    by (simp add: gsound_context_play_simple_def case_prod_unfold fst_proplist_create
        ca_context_play_full_def Let_def)
      (simp add: ca_invoke_def Let_def)
  have q1: "quiet w ?w2"
    using quiet_trans [OF quiet_proplist_create quiet_var_args] .
  have q2: "quiet ?w3 ?w5"
    using quiet_trans [OF quiet_connect quiet_clear] .
  note around = around_submission [OF q1 q2]
  show ?thesis
    using True around(1) around(4) around(5) by (simp add: run)
qed


lemma play_simplev_summary:
  "case gsound_context_play_simplev E self attrs c error w of
     (ok, error', w') \<Rightarrow>
       (if ca_status E (trace w) Proplist_create = CA_SUCCESS
        then \<exists>s. plays (events_since w w') = [(g_direct_hash c, None, s)] \<and>
                 (ok, error') = test_return E s error
        else plays (events_since w w') = [] \<and> \<not> ok) \<and>
       tasks w' = tasks w \<and> completed w' = completed w"
proof (cases "ca_status E (trace w) Proplist_create = CA_SUCCESS")
  case False
  then show ?thesis
    by (simp add: gsound_context_play_simplev_def case_prod_unfold fst_proplist_create
        test_return_def events_since_def trace_proplist_create)
      (simp add: native_defs Let_def)
next
  case True
  let ?pl = "fst (snd (ca_proplist_create E w))"
  let ?w1 = "snd (snd (ca_proplist_create E w))"
  let ?w2 = "hash_table_to_prop_list E attrs ?pl ?w1"
  let ?r = "Context_play_full (ca (contexts ?w2 self)) (g_direct_hash c) ?pl None"
  let ?w3 = "snd (ca_invoke E ?r ?w2)"
  let ?w5 = "clear_proplist E ?pl (connect_if_cancellable E c self ?w3)"
  let ?s = "ca_status E (trace ?w2) ?r"
  have run: "gsound_context_play_simplev E self attrs c error w =
      (fst (test_return E ?s error), snd (test_return E ?s error), ?w5)"
    using True
    by (simp add: gsound_context_play_simplev_def case_prod_unfold fst_proplist_create
        ca_context_play_full_def Let_def)
      (simp add: ca_invoke_def Let_def test_return_def)
  have q1: "quiet w ?w2"
    using quiet_trans [OF quiet_proplist_create quiet_hash_table] .
  have q2: "quiet ?w3 ?w5"
    using quiet_trans [OF quiet_connect quiet_clear] .
  note around = around_submission [OF q1 q2]
  show ?thesis
    using True around(1) around(4) around(5) by (simp add: run)
qed

lemma events_since_cong:
  "trace w0 = trace w \<Longrightarrow> trace w' = trace w5 \<Longrightarrow> events_since w w' = events_since w0 w5"
  by (simp add: events_since_def)

lemma trace_task_return_error: "trace (g_task_return_error t e w) = trace w"
  by (simp add: g_task_return_error_def)

lemma play_fullv_summary:
  "case gsound_context_play_fullv E self attrs c w of
     (task, w') \<Rightarrow>
       task = length (tasks w) \<and>
       length (tasks w') = Suc (length (tasks w)) \<and>
       take (length (tasks w)) (tasks w') = tasks w \<and>
       (completed w' = completed w \<or> completed w' = completed w @ [task]) \<and>
       (if ca_status E (trace w) Proplist_create = CA_SUCCESS
        then \<exists>s. plays (events_since w w') = [(g_direct_hash c, Some task, s)] \<and>
                 (if s = CA_SUCCESS
                  then pending w' task \<and> source_object (tasks w' ! task) = self \<and>
                       task_cancellable (tasks w' ! task) = c \<and> completed w' = completed w
                  else task_error (tasks w' ! task) =
                         Some \<lparr>domain = GSOUND_ERROR, code = s, message = ca_strerror E s\<rparr> \<and>
                       completed w' = completed w @ [task])
        else plays (events_since w w') = [] \<and> \<not> pending w' task)"
proof (cases "ca_status E (trace w) Proplist_create = CA_SUCCESS")
  case False
  then show ?thesis
    by (simp add: gsound_context_play_fullv_def case_prod_unfold g_task_new_def
        test_return_def events_since_def native_defs Let_def g_task_return_error_def pending_def)
next
  case True
  let ?task = "length (tasks w)"
  let ?w0 = "snd (g_task_new self c w)"
  let ?pl = "fst (snd (ca_proplist_create E ?w0))"
  let ?w1 = "snd (snd (ca_proplist_create E ?w0))"
  let ?w2 = "hash_table_to_prop_list E attrs ?pl ?w1"
  let ?r = "Context_play_full (ca (contexts ?w2 self)) (g_direct_hash c) ?pl (Some ?task)"
  let ?w3 = "snd (ca_invoke E ?r ?w2)"
  let ?w5 = "clear_proplist E ?pl (connect_if_cancellable E c self ?w3)"
  let ?s = "ca_status E (trace ?w2) ?r"
  let ?e = "\<lparr>domain = GSOUND_ERROR, code = ?s, message = ca_strerror E ?s\<rparr>"
  have t0: "trace ?w0 = trace w" "tasks ?w0 ! ?task =
      \<lparr>source_object = self, task_cancellable = c, ever_returned = False,
       task_error = None, result_set = False, result_boolean = False\<rparr>"
    "length (tasks ?w0) = Suc ?task" "completed ?w0 = completed w"
    "take ?task (tasks ?w0) = tasks w"
    by (simp_all add: g_task_new_def)
  have run: "gsound_context_play_fullv E self attrs c w =
      (?task, if ?s = CA_SUCCESS then ?w5 else g_task_return_error ?task ?e ?w5)"
    using True
    by (simp add: gsound_context_play_fullv_def case_prod_unfold fst_proplist_create
        ca_context_play_full_def Let_def t0(1))
      (simp add: ca_invoke_def Let_def test_return_def g_task_new_def)
  have q1: "quiet ?w0 ?w2"
    using quiet_trans [OF quiet_proplist_create quiet_hash_table] .
  have q2: "quiet ?w3 ?w5"
    using quiet_trans [OF quiet_connect quiet_clear] .
  note around = around_submission [OF q1 q2]
  have ev: "events_since w (if ?s = CA_SUCCESS then ?w5 else g_task_return_error ?task ?e ?w5) =
      events_since ?w0 ?w5"
    by (rule events_since_cong) (simp_all add: t0(1) trace_task_return_error)
  show ?thesis
    unfolding run using True around(1) around(4) around(5) t0(2-5)
    by (simp add: ev pending_def g_task_return_error_def)
qed


lemma play_full_summary:
  "case gsound_context_play_full E self c args w of
     (task, w') \<Rightarrow>
       task = length (tasks w) \<and>
       length (tasks w') = Suc (length (tasks w)) \<and>
       take (length (tasks w)) (tasks w') = tasks w \<and>
       (completed w' = completed w \<or> completed w' = completed w @ [task]) \<and>
       (if ca_status E (trace w) Proplist_create = CA_SUCCESS
        then \<exists>s. plays (events_since w w') = [(g_direct_hash c, Some task, s)] \<and>
                 (if s = CA_SUCCESS
                  then pending w' task \<and> source_object (tasks w' ! task) = self \<and>
                       task_cancellable (tasks w' ! task) = c \<and> completed w' = completed w
                  else task_error (tasks w' ! task) =
                         Some \<lparr>domain = GSOUND_ERROR, code = s, message = ca_strerror E s\<rparr> \<and>
                       completed w' = completed w @ [task])
        else plays (events_since w w') = [] \<and> \<not> pending w' task)"
proof (cases "ca_status E (trace w) Proplist_create = CA_SUCCESS")
  case False
  then show ?thesis
    by (simp add: gsound_context_play_full_def case_prod_unfold g_task_new_def
        test_return_def events_since_def native_defs Let_def g_task_return_error_def pending_def)
next
  case True
  let ?task = "length (tasks w)"
  let ?w0 = "snd (g_task_new self c w)"
  let ?pl = "fst (snd (ca_proplist_create E ?w0))"
  let ?w1 = "snd (snd (ca_proplist_create E ?w0))"
  let ?w2 = "snd (var_args_to_prop_list E args ?pl ?w1)"
  let ?r = "Context_play_full (ca (contexts ?w2 self)) (g_direct_hash c) ?pl (Some ?task)"
  let ?w3 = "snd (ca_invoke E ?r ?w2)"
  let ?w5 = "clear_proplist E ?pl (connect_if_cancellable E c self ?w3)"
  let ?s = "ca_status E (trace ?w2) ?r"
  let ?e = "\<lparr>domain = GSOUND_ERROR, code = ?s, message = ca_strerror E ?s\<rparr>"
  have t0: "trace ?w0 = trace w" "tasks ?w0 ! ?task =
      \<lparr>source_object = self, task_cancellable = c, ever_returned = False,
       task_error = None, result_set = False, result_boolean = False\<rparr>"
    "length (tasks ?w0) = Suc ?task" "completed ?w0 = completed w"
    "take ?task (tasks ?w0) = tasks w"
    by (simp_all add: g_task_new_def)
  have run: "gsound_context_play_full E self c args w =
      (?task, if ?s = CA_SUCCESS then ?w5 else g_task_return_error ?task ?e ?w5)"
    using True
    by (simp add: gsound_context_play_full_def case_prod_unfold fst_proplist_create
        ca_context_play_full_def Let_def t0(1))
      (simp add: ca_invoke_def Let_def test_return_def g_task_new_def)
  have q1: "quiet ?w0 ?w2"
    using quiet_trans [OF quiet_proplist_create quiet_var_args] .
  have q2: "quiet ?w3 ?w5"
    using quiet_trans [OF quiet_connect quiet_clear] .
  note around = around_submission [OF q1 q2]
  have ev: "events_since w (if ?s = CA_SUCCESS then ?w5 else g_task_return_error ?task ?e ?w5) =
      events_since ?w0 ?w5"
    by (rule events_since_cong) (simp_all add: t0(1) trace_task_return_error)
  show ?thesis
    unfolding run using True around(1) around(4) around(5) t0(2-5)
    by (simp add: ev pending_def g_task_return_error_def)
qed

lemma hash_table_events:
  "\<exists>evs. hash_table_to_prop_list E ht pl w = w\<lparr>trace := trace w @ evs\<rparr> \<and>
         map fst evs = map (\<lambda>kv. Proplist_sets pl (fst kv) (snd kv)) ht"
proof (induction ht arbitrary: w)
  case Nil
  show ?case by (rule exI [of _ "[]"]) simp
next
  case (Cons kv ht)
  obtain key val where kv: "kv = (key, val)" by (cases kv)
  let ?e = "(Proplist_sets pl key val, ca_status E (trace w) (Proplist_sets pl key val))"
  let ?w1 = "w\<lparr>trace := trace w @ [?e]\<rparr>"
  from Cons.IH [of ?w1] obtain evs where
    evs: "hash_table_to_prop_list E ht pl ?w1 = ?w1\<lparr>trace := trace ?w1 @ evs\<rparr>"
      "map fst evs = map (\<lambda>kv. Proplist_sets pl (fst kv) (snd kv)) ht"
    by blast
  show ?case
    by (rule exI [of _ "?e # evs"]) (simp add: kv evs ca_proplist_sets_def ca_invoke_def Let_def)
qed

lemma sets_silent:
  "map fst evs = map (\<lambda>kv. Proplist_sets pl (fst kv) (snd kv)) ht \<Longrightarrow> silent evs"
proof (induction evs arbitrary: ht)
  case Nil
  show ?case by (simp add: silent_def)
next
  case (Cons e evs)
  then obtain kv ht' where ht: "ht = kv # ht'" by (cases ht) auto
  with Cons.prems have e: "fst e = Proplist_sets pl (fst kv) (snd kv)"
    and rest: "map fst evs = map (\<lambda>kv. Proplist_sets pl (fst kv) (snd kv)) ht'"
    by simp_all
  from Cons.IH [OF rest] have "silent evs" .
  then show ?case using e by (cases e) (simp add: silent_def)
qed

lemma submission_events:
  assumes "trace w2 = trace w @ pre" and "quiet (snd (ca_invoke E r w2)) w5"
  shows "\<exists>rest. events_since w w5 = pre @ (r, ca_status E (trace w @ pre) r) # rest \<and>
           silent rest"
proof -
  from assms(2) obtain rest where
    rest: "trace w5 = trace (snd (ca_invoke E r w2)) @ rest" "silent rest"
    by (auto simp add: quiet_def)
  have "events_since w w5 = pre @ (r, ca_status E (trace w @ pre) r) # rest"
    by (simp add: events_since_def rest(1) ca_invoke_def Let_def assms(1))
  with rest(2) show ?thesis by blast
qed

lemma change_attrsv_run:
  "case gsound_context_change_attrsv E self attrs error w of
     (ok, error', w') \<Rightarrow>
       (if ca_status E (trace w) Proplist_create = CA_SUCCESS
        then \<exists>evs rest s.
               events_since w w' =
                 (Proplist_create, CA_SUCCESS) # evs @
                 (Context_change_props_full (ca (contexts w self))
                    (Some (ca_new_proplist E (trace w))), s) # rest \<and>
               map fst evs =
                 map (\<lambda>kv. Proplist_sets (Some (ca_new_proplist E (trace w))) (fst kv) (snd kv))
                   attrs \<and>
               silent rest \<and>
               s = ca_status E (trace w @ (Proplist_create, CA_SUCCESS) # evs)
                     (Context_change_props_full (ca (contexts w self))
                        (Some (ca_new_proplist E (trace w)))) \<and>
               (ok \<longleftrightarrow> s = CA_SUCCESS) \<and>
               error' =
                 (if s = CA_SUCCESS then error
                  else g_set_error_literal error GSOUND_ERROR s (ca_strerror E s))
        else events_since w w' = [(Proplist_create, ca_status E (trace w) Proplist_create)] \<and>
             \<not> ok \<and>
             error' = g_set_error_literal error GSOUND_ERROR
                        (ca_status E (trace w) Proplist_create)
                        (ca_strerror E (ca_status E (trace w) Proplist_create)))"
proof (cases "ca_status E (trace w) Proplist_create = CA_SUCCESS")
  case False
  then show ?thesis
    by (simp add: gsound_context_change_attrsv_def case_prod_unfold fst_proplist_create
        test_return_def events_since_def trace_proplist_create)
next
  case True
  let ?pl = "Some (ca_new_proplist E (trace w))"
  let ?c = "(Proplist_create, CA_SUCCESS)"
  let ?w1 = "w\<lparr>trace := trace w @ [?c]\<rparr>"
  have c1: "ca_proplist_create E w = (CA_SUCCESS, ?pl, ?w1)"
    using True by (simp add: ca_proplist_create_def ca_invoke_def Let_def)
  from hash_table_events [of E attrs ?pl ?w1] obtain evs where
    evs: "hash_table_to_prop_list E attrs ?pl ?w1 = ?w1\<lparr>trace := trace ?w1 @ evs\<rparr>"
      "map fst evs = map (\<lambda>kv. Proplist_sets ?pl (fst kv) (snd kv)) attrs"
    by blast
  let ?w2 = "w\<lparr>trace := trace w @ ?c # evs\<rparr>"
  have w2: "hash_table_to_prop_list E attrs ?pl ?w1 = ?w2"
    using evs(1) by simp
  let ?r = "Context_change_props_full (ca (contexts w self)) ?pl"
  let ?s = "ca_status E (trace w @ ?c # evs) ?r"
  let ?w5 = "clear_proplist E ?pl (snd (ca_invoke E ?r ?w2))"
  have run: "gsound_context_change_attrsv E self attrs error w =
      (fst (test_return E ?s error), snd (test_return E ?s error), ?w5)"
    by (simp add: gsound_context_change_attrsv_def c1 w2 ca_context_change_props_full_def
        test_return_def ca_invoke_def Let_def)
  from submission_events [of ?w2 w "?c # evs" E ?r ?w5] quiet_clear obtain rest where
    rest: "events_since w ?w5 = (?c # evs) @ (?r, ?s) # rest" "silent rest"
    by auto
  show ?thesis
    unfolding run using True rest evs(2) by (auto simp add: test_return_def)
qed

lemma cachev_run:
  "case gsound_context_cachev E self attrs error w of
     (ok, error', w') \<Rightarrow>
       (if ca_status E (trace w) Proplist_create = CA_SUCCESS
        then \<exists>evs rest s.
               events_since w w' =
                 (Proplist_create, CA_SUCCESS) # evs @
                 (Context_cache_full (ca (contexts w self))
                    (Some (ca_new_proplist E (trace w))), s) # rest \<and>
               map fst evs =
                 map (\<lambda>kv. Proplist_sets (Some (ca_new_proplist E (trace w))) (fst kv) (snd kv))
                   attrs \<and>
               silent rest \<and>
               s = ca_status E (trace w @ (Proplist_create, CA_SUCCESS) # evs)
                     (Context_cache_full (ca (contexts w self))
                        (Some (ca_new_proplist E (trace w)))) \<and>
               (ok \<longleftrightarrow> s = CA_SUCCESS) \<and>
               error' =
                 (if s = CA_SUCCESS then error
                  else g_set_error_literal error GSOUND_ERROR s (ca_strerror E s))
        else events_since w w' = [(Proplist_create, ca_status E (trace w) Proplist_create)] \<and>
             \<not> ok \<and>
             error' = g_set_error_literal error GSOUND_ERROR
                        (ca_status E (trace w) Proplist_create)
                        (ca_strerror E (ca_status E (trace w) Proplist_create)))"
proof (cases "ca_status E (trace w) Proplist_create = CA_SUCCESS")
  case False
  then show ?thesis
    by (simp add: gsound_context_cachev_def case_prod_unfold fst_proplist_create
        test_return_def events_since_def trace_proplist_create)
next
  case True
  let ?pl = "Some (ca_new_proplist E (trace w))"
  let ?c = "(Proplist_create, CA_SUCCESS)"
  let ?w1 = "w\<lparr>trace := trace w @ [?c]\<rparr>"
  have c1: "ca_proplist_create E w = (CA_SUCCESS, ?pl, ?w1)"
    using True by (simp add: ca_proplist_create_def ca_invoke_def Let_def)
  from hash_table_events [of E attrs ?pl ?w1] obtain evs where
    evs: "hash_table_to_prop_list E attrs ?pl ?w1 = ?w1\<lparr>trace := trace ?w1 @ evs\<rparr>"
      "map fst evs = map (\<lambda>kv. Proplist_sets ?pl (fst kv) (snd kv)) attrs"
    by blast
  let ?w2 = "w\<lparr>trace := trace w @ ?c # evs\<rparr>"
  have w2: "hash_table_to_prop_list E attrs ?pl ?w1 = ?w2"
    using evs(1) by simp
  let ?r = "Context_cache_full (ca (contexts w self)) ?pl"
  let ?s = "ca_status E (trace w @ ?c # evs) ?r"
  let ?w5 = "clear_proplist E ?pl (snd (ca_invoke E ?r ?w2))"
  have run: "gsound_context_cachev E self attrs error w =
      (fst (test_return E ?s error), snd (test_return E ?s error), ?w5)"
    by (simp add: gsound_context_cachev_def c1 w2 ca_context_cache_full_def
        test_return_def ca_invoke_def Let_def)
  from submission_events [of ?w2 w "?c # evs" E ?r ?w5] quiet_clear obtain rest where
    rest: "events_since w ?w5 = (?c # evs) @ (?r, ?s) # rest" "silent rest"
    by auto
  show ?thesis
    unfolding run using True rest evs(2) by (auto simp add: test_return_def)
qed

lemma play_simplev_run:
  "case gsound_context_play_simplev E self attrs c error w of
     (ok, error', w') \<Rightarrow>
       (if ca_status E (trace w) Proplist_create = CA_SUCCESS
        then \<exists>evs rest s.
               events_since w w' =
                 (Proplist_create, CA_SUCCESS) # evs @
                 (Context_play_full (ca (contexts w self)) (g_direct_hash c)
                    (Some (ca_new_proplist E (trace w))) None, s) # rest \<and>
               map fst evs =
                 map (\<lambda>kv. Proplist_sets (Some (ca_new_proplist E (trace w))) (fst kv) (snd kv))
                   attrs \<and>
               silent rest \<and>
               s = ca_status E (trace w @ (Proplist_create, CA_SUCCESS) # evs)
                     (Context_play_full (ca (contexts w self)) (g_direct_hash c)
                        (Some (ca_new_proplist E (trace w))) None) \<and>
               (ok \<longleftrightarrow> s = CA_SUCCESS) \<and>
               error' =
                 (if s = CA_SUCCESS then error
                  else g_set_error_literal error GSOUND_ERROR s (ca_strerror E s))
        else events_since w w' = [(Proplist_create, ca_status E (trace w) Proplist_create)] \<and>
             \<not> ok \<and>
             error' = g_set_error_literal error GSOUND_ERROR
                        (ca_status E (trace w) Proplist_create)
                        (ca_strerror E (ca_status E (trace w) Proplist_create)))"
proof (cases "ca_status E (trace w) Proplist_create = CA_SUCCESS")
  case False
  then show ?thesis
    by (simp add: gsound_context_play_simplev_def case_prod_unfold fst_proplist_create
        test_return_def events_since_def trace_proplist_create)
next
  case True
  let ?pl = "Some (ca_new_proplist E (trace w))"
  let ?c = "(Proplist_create, CA_SUCCESS)"
  let ?w1 = "w\<lparr>trace := trace w @ [?c]\<rparr>"
  have c1: "ca_proplist_create E w = (CA_SUCCESS, ?pl, ?w1)"
    using True by (simp add: ca_proplist_create_def ca_invoke_def Let_def)
  from hash_table_events [of E attrs ?pl ?w1] obtain evs where
    evs: "hash_table_to_prop_list E attrs ?pl ?w1 = ?w1\<lparr>trace := trace ?w1 @ evs\<rparr>"
      "map fst evs = map (\<lambda>kv. Proplist_sets ?pl (fst kv) (snd kv)) attrs"
    by blast
  let ?w2 = "w\<lparr>trace := trace w @ ?c # evs\<rparr>"
  have w2: "hash_table_to_prop_list E attrs ?pl ?w1 = ?w2"
    using evs(1) by simp
  let ?r = "Context_play_full (ca (contexts w self)) (g_direct_hash c) ?pl None"
  let ?s = "ca_status E (trace w @ ?c # evs) ?r"
  let ?w3 = "snd (ca_invoke E ?r ?w2)"
  let ?w5 = "clear_proplist E ?pl (connect_if_cancellable E c self ?w3)"
  have run: "gsound_context_play_simplev E self attrs c error w =
      (fst (test_return E ?s error), snd (test_return E ?s error), ?w5)"
    by (simp add: gsound_context_play_simplev_def c1 w2 ca_context_play_full_def
        test_return_def ca_invoke_def Let_def)
  have q: "quiet ?w3 ?w5"
    using quiet_trans [OF quiet_connect quiet_clear] .
  from submission_events [of ?w2 w "?c # evs" E ?r ?w5] q obtain rest where
    rest: "events_since w ?w5 = (?c # evs) @ (?r, ?s) # rest" "silent rest"
    by auto
  show ?thesis
    unfolding run using True rest evs(2) by (auto simp add: test_return_def)
qed

lemma play_simple_run:
  "case gsound_context_play_simple E self c error args w of
     (ok, error', w') \<Rightarrow>
       (if ca_status E (trace w) Proplist_create = CA_SUCCESS
        then \<exists>evs rest s.
               events_since w w' =
                 (Proplist_create, CA_SUCCESS) # evs @
                 (Context_play_full (ca (contexts w self)) (g_direct_hash c)
                    (Some (ca_new_proplist E (trace w))) None, s) # rest \<and>
               silent evs \<and> silent rest \<and>
               s = ca_status E (trace w @ (Proplist_create, CA_SUCCESS) # evs)
                     (Context_play_full (ca (contexts w self)) (g_direct_hash c)
                        (Some (ca_new_proplist E (trace w))) None) \<and>
               (ok \<longleftrightarrow> s = CA_SUCCESS) \<and>
               error' =
                 (if s = CA_SUCCESS then error
                  else g_set_error_literal error GSOUND_ERROR s (ca_strerror E s))
        else events_since w w' = [(Proplist_create, ca_status E (trace w) Proplist_create)] \<and>
             \<not> ok \<and>
             error' = g_set_error_literal error GSOUND_ERROR
                        (ca_status E (trace w) Proplist_create)
                        (ca_strerror E (ca_status E (trace w) Proplist_create)))"
proof (cases "ca_status E (trace w) Proplist_create = CA_SUCCESS")
  case False
  then show ?thesis
    by (simp add: gsound_context_play_simple_def case_prod_unfold fst_proplist_create
        test_return_def events_since_def trace_proplist_create)
next
  case True
  let ?pl = "Some (ca_new_proplist E (trace w))"
  let ?c = "(Proplist_create, CA_SUCCESS)"
  let ?w1 = "w\<lparr>trace := trace w @ [?c]\<rparr>"
  have c1: "ca_proplist_create E w = (CA_SUCCESS, ?pl, ?w1)"
    using True by (simp add: ca_proplist_create_def ca_invoke_def Let_def)
  let ?w2 = "snd (var_args_to_prop_list E args ?pl ?w1)"
  from quiet_var_args [of ?w1 E args ?pl] obtain evs where
    evs: "trace ?w2 = trace ?w1 @ evs" "silent evs" and ctx: "contexts ?w2 = contexts w"
    by (auto simp add: quiet_def)
  have t2: "trace ?w2 = trace w @ ?c # evs"
    using evs(1) by simp
  let ?r = "Context_play_full (ca (contexts w self)) (g_direct_hash c) ?pl None"
  let ?s = "ca_status E (trace w @ ?c # evs) ?r"
  let ?w3 = "snd (ca_invoke E ?r ?w2)"
  let ?w5 = "clear_proplist E ?pl (connect_if_cancellable E c self ?w3)"
  have run: "gsound_context_play_simple E self c error args w =
      (fst (test_return E ?s error), snd (test_return E ?s error), ?w5)"
    using True
    by (simp add: gsound_context_play_simple_def c1 case_prod_unfold ctx
        ca_context_play_full_def Let_def)
      (simp add: ca_invoke_def Let_def t2)
  have q: "quiet ?w3 ?w5"
    using quiet_trans [OF quiet_connect quiet_clear] .
  from submission_events [OF t2 q] obtain rest where
    rest: "events_since w ?w5 = (?c # evs) @ (?r, ?s) # rest" "silent rest"
    by auto
  show ?thesis
    unfolding run using True rest evs(2) by (auto simp add: test_return_def)
qed

lemma play_fullv_run:
  "case gsound_context_play_fullv E self attrs c w of
     (task, w') \<Rightarrow>
       task = length (tasks w) \<and>
       (if ca_status E (trace w) Proplist_create = CA_SUCCESS
        then \<exists>evs rest s.
               events_since w w' =
                 (Proplist_create, CA_SUCCESS) # evs @
                 (Context_play_full (ca (contexts w self)) (g_direct_hash c)
                    (Some (ca_new_proplist E (trace w))) (Some task), s) # rest \<and>
               map fst evs =
                 map (\<lambda>kv. Proplist_sets (Some (ca_new_proplist E (trace w))) (fst kv) (snd kv))
                   attrs \<and>
               silent rest \<and>
               s = ca_status E (trace w @ (Proplist_create, CA_SUCCESS) # evs)
                     (Context_play_full (ca (contexts w self)) (g_direct_hash c)
                        (Some (ca_new_proplist E (trace w))) (Some task)) \<and>
               (if s = CA_SUCCESS then pending w' task \<and> completed w' = completed w
                else resolved w' task \<and> completed w' = completed w @ [task] \<and>
                     task_error (tasks w' ! task) =
                       Some \<lparr>domain = GSOUND_ERROR, code = s, message = ca_strerror E s\<rparr>)
        else events_since w w' = [(Proplist_create, ca_status E (trace w) Proplist_create)] \<and>
             resolved w' task \<and> completed w' = completed w @ [task] \<and>
             task_error (tasks w' ! task) =
               Some \<lparr>domain = GSOUND_ERROR, code = ca_status E (trace w) Proplist_create,
                     message = ca_strerror E (ca_status E (trace w) Proplist_create)\<rparr>)"
proof (cases "ca_status E (trace w) Proplist_create = CA_SUCCESS")
  case False
  then show ?thesis
    by (simp add: gsound_context_play_fullv_def case_prod_unfold g_task_new_def
        test_return_def events_since_def native_defs Let_def g_task_return_error_def
        resolved_def)
next
  case True
  let ?task = "length (tasks w)"
  let ?T0 = "\<lparr>source_object = self, task_cancellable = c, ever_returned = False,
       task_error = None, result_set = False, result_boolean = False\<rparr>"
  let ?w0 = "w\<lparr>tasks := tasks w @ [?T0]\<rparr>"
  let ?pl = "Some (ca_new_proplist E (trace w))"
  let ?c = "(Proplist_create, CA_SUCCESS)"
  let ?w1 = "?w0\<lparr>trace := trace w @ [?c]\<rparr>"
  have c1: "ca_proplist_create E ?w0 = (CA_SUCCESS, ?pl, ?w1)"
    using True by (simp add: ca_proplist_create_def ca_invoke_def Let_def)
  from hash_table_events [of E attrs ?pl ?w1] obtain evs where
    evs: "hash_table_to_prop_list E attrs ?pl ?w1 = ?w1\<lparr>trace := trace ?w1 @ evs\<rparr>"
      "map fst evs = map (\<lambda>kv. Proplist_sets ?pl (fst kv) (snd kv)) attrs"
    by blast
  let ?w2 = "?w0\<lparr>trace := trace w @ ?c # evs\<rparr>"
  have w2: "hash_table_to_prop_list E attrs ?pl ?w1 = ?w2"
    using evs(1) by simp
  let ?r = "Context_play_full (ca (contexts w self)) (g_direct_hash c) ?pl (Some ?task)"
  let ?s = "ca_status E (trace w @ ?c # evs) ?r"
  let ?e = "\<lparr>domain = GSOUND_ERROR, code = ?s, message = ca_strerror E ?s\<rparr>"
  let ?w3 = "snd (ca_invoke E ?r ?w2)"
  let ?w5 = "clear_proplist E ?pl (connect_if_cancellable E c self ?w3)"
  have run: "gsound_context_play_fullv E self attrs c w =
      (?task, if ?s = CA_SUCCESS then ?w5 else g_task_return_error ?task ?e ?w5)"
    by (simp add: gsound_context_play_fullv_def g_task_new_def c1 w2 ca_context_play_full_def
        test_return_def ca_invoke_def Let_def)
  have q: "quiet ?w3 ?w5"
    using quiet_trans [OF quiet_connect quiet_clear] .
  then have t5: "tasks ?w5 = tasks w @ [?T0]" "completed ?w5 = completed w"
    by (simp_all add: quiet_def ca_invoke_def Let_def)
  from submission_events [of ?w2 w "?c # evs" E ?r ?w5] q obtain rest where
    rest: "events_since w ?w5 = (?c # evs) @ (?r, ?s) # rest" "silent rest"
    by auto
  have ev: "events_since w (g_task_return_error ?task ?e ?w5) = events_since w ?w5"
    by (simp add: events_since_def trace_task_return_error)
  show ?thesis
  proof (cases "?s = CA_SUCCESS")
    case s: True
    have "pending ?w5 ?task \<and> completed ?w5 = completed w"
      by (simp add: pending_def t5)
    then show ?thesis
      unfolding run using True s rest evs(2) by auto
  next
    case s: False
    have "resolved (g_task_return_error ?task ?e ?w5) ?task \<and>
        completed (g_task_return_error ?task ?e ?w5) = completed w @ [?task] \<and>
        task_error (tasks (g_task_return_error ?task ?e ?w5) ! ?task) = Some ?e"
      by (simp add: g_task_return_error_def resolved_def t5)
    then show ?thesis
      unfolding run using True s rest evs(2) ev by auto
  qed
qed

lemma on_cancellable_cancelled_effect:
  "on_cancellable_cancelled E c self w =
     w\<lparr>trace := trace w @
        [(Context_cancel (ca (contexts w self)) (g_direct_hash c),
          ca_status E (trace w) (Context_cancel (ca (contexts w self)) (g_direct_hash c)))]\<rparr>"
  by (simp add: on_cancellable_cancelled_def native_defs Let_def)

lemma run_handlers_frame:
  "\<exists>evs. run_handlers E c hs w = w\<lparr>trace := trace w @ evs\<rparr> \<and>
         map snd (cancels evs) = replicate (length hs) (g_direct_hash c) \<and>
         length (cancels evs) = length evs"
proof (induction hs arbitrary: w)
  case Nil
  show ?case by (rule exI [of _ "[]"]) simp
next
  case (Cons h hs)
  let ?e = "(Context_cancel (ca (contexts w h)) (g_direct_hash c),
          ca_status E (trace w) (Context_cancel (ca (contexts w h)) (g_direct_hash c)))"
  let ?w1 = "w\<lparr>trace := trace w @ [?e]\<rparr>"
  from Cons.IH [of ?w1] obtain evs where
    evs: "run_handlers E c hs ?w1 = ?w1\<lparr>trace := trace ?w1 @ evs\<rparr>"
      "map snd (cancels evs) = replicate (length hs) (g_direct_hash c)"
      "length (cancels evs) = length evs"
    by blast
  show ?case
    by (rule exI [of _ "?e # evs"]) (simp add: on_cancellable_cancelled_effect evs)
qed

lemma g_cancellable_cancel_frame:
  "\<exists>evs cs. g_cancellable_cancel E c w = w\<lparr>cancelled := cs, trace := trace w @ evs\<rparr> \<and>
         set (map snd (cancels evs)) \<subseteq> {g_direct_hash c} \<and>
         length (cancels evs) = length evs"
proof (cases "c = 0 \<or> c \<in> set (cancelled w)")
  case True
  then have "g_cancellable_cancel E c w = w\<lparr>cancelled := cancelled w, trace := trace w @ []\<rparr>"
    by (simp add: g_cancellable_cancel_def)
  then show ?thesis by (metis cancels.simps(1) empty_subsetI list.simps(8) list.size(3) set_empty2)
next
  case False
  let ?hs = "map snd (filter (\<lambda>h. fst h = c) (connections w))"
  let ?w1 = "w\<lparr>cancelled := c # cancelled w\<rparr>"
  from run_handlers_frame [of E c ?hs ?w1] obtain evs where
    evs: "run_handlers E c ?hs ?w1 = ?w1\<lparr>trace := trace ?w1 @ evs\<rparr>"
      "map snd (cancels evs) = replicate (length ?hs) (g_direct_hash c)"
      "length (cancels evs) = length evs"
    by blast
  have "g_cancellable_cancel E c w = w\<lparr>cancelled := c # cancelled w, trace := trace w @ evs\<rparr>"
    using False evs(1) by (simp add: g_cancellable_cancel_def)
  moreover have "set (map snd (cancels evs)) \<subseteq> {g_direct_hash c}"
    unfolding evs(2) by auto
  ultimately show ?thesis using evs(3) by blast
qed

lemma cancel_keeps_tasks:
  "tasks (g_cancellable_cancel E c w) = tasks w \<and>
   completed (g_cancellable_cancel E c w) = completed w"
  using g_cancellable_cancel_frame [of E c w] by auto

lemma cancels_keep_tasks:
  "tasks (fold (g_cancellable_cancel E) cs w) = tasks w \<and>
   completed (fold (g_cancellable_cancel E) cs w) = completed w"
  by (induction cs arbitrary: w) (simp_all add: cancel_keeps_tasks)

subsection \<open>Tasks under the transitions\<close>

lemma tasks_invoke: "tasks (snd (ca_invoke E r w)) = tasks w"
  by (simp add: ca_invoke_def Let_def)

lemma tasks_proplist_create: "tasks (snd (snd (ca_proplist_create E w))) = tasks w"
  by (simp add: ca_proplist_create_def case_prod_unfold tasks_invoke)

lemma tasks_var_args: "tasks (snd (var_args_to_prop_list E args pl w)) = tasks w"
  using quiet_var_args [of w E args pl] by (simp add: quiet_def)

lemma tasks_hash_table: "tasks (hash_table_to_prop_list E ht pl w) = tasks w"
  using quiet_hash_table [of w E ht pl] by (simp add: quiet_def)

lemma tasks_clear_proplist: "tasks (clear_proplist E pl w) = tasks w"
  using quiet_clear [of w E pl] by (simp add: quiet_def)

lemma tasks_connect: "tasks (connect_if_cancellable E c self w) = tasks w"
  using quiet_connect [of w E c self] by (simp add: quiet_def)

lemma tasks_clear_ca: "tasks (clear_ca E self w) = tasks w"
  by (simp add: clear_ca_def Let_def ca_context_destroy_def tasks_invoke split: option.splits)

lemmas tasks_frames =
  tasks_invoke tasks_proplist_create tasks_var_args tasks_hash_table tasks_clear_proplist
  tasks_connect tasks_clear_ca

lemmas wrapper_defs =
  ca_proplist_sets_def ca_proplist_destroy_def ca_context_destroy_def ca_context_open_def
  ca_context_set_driver_def ca_context_change_props_full_def ca_context_play_full_def
  ca_context_cache_full_def ca_context_cancel_def

lemma tasks_simple_steps:
  "tasks (snd (snd (gsound_context_real_init E self c error w))) = tasks w"
  "tasks (snd (snd (gsound_context_open E self error w))) = tasks w"
  "tasks (snd (snd (gsound_context_set_driver E self driver error w))) = tasks w"
  "tasks (snd (snd (gsound_context_change_attrs E self error args w))) = tasks w"
  "tasks (snd (snd (gsound_context_change_attrsv E self attrs error w))) = tasks w"
  "tasks (snd (snd (gsound_context_play_simple E self c error args w))) = tasks w"
  "tasks (snd (snd (gsound_context_play_simplev E self attrs c error w))) = tasks w"
  "tasks (snd (snd (gsound_context_cache E self error args w))) = tasks w"
  "tasks (snd (snd (gsound_context_cachev E self attrs error w))) = tasks w"
  "tasks (gsound_context_finalize E self w) = tasks w"
  by (simp_all add: gsound_context_real_init_def gsound_context_open_def
      gsound_context_set_driver_def gsound_context_change_attrs_def
      gsound_context_change_attrsv_def gsound_context_play_simple_def
      gsound_context_play_simplev_def gsound_context_cache_def gsound_context_cachev_def
      gsound_context_finalize_def ca_context_create_def tasks_frames
      case_prod_unfold Let_def wrapper_defs split: option.splits)

lemma pending_same_tasks: "tasks w' = tasks w \<Longrightarrow> pending w' t = pending w t"
  by (simp add: pending_def)

lemma pending_prefix:
  assumes "take (length (tasks w)) (tasks w') = tasks w"
    and "length (tasks w) \<le> length (tasks w')"
    and "pending w t"
  shows "pending w' t"
proof -
  from assms(3) have t: "t < length (tasks w)" "\<not> ever_returned (tasks w ! t)"
    by (simp_all add: pending_def)
  have "take (length (tasks w)) (tasks w') ! t = tasks w' ! t"
    using t(1) by simp
  with assms(1) have "tasks w' ! t = tasks w ! t" by simp
  with t assms(2) show ?thesis by (simp add: pending_def)
qed

lemma pending_play_full:
  "pending w t \<Longrightarrow> pending (snd (gsound_context_play_full E self c args w)) t"
  using play_full_summary [where E = E and self = self and c = c and args = args and w = w]
  by (auto simp add: case_prod_unfold intro: pending_prefix)

lemma pending_play_fullv:
  "pending w t \<Longrightarrow> pending (snd (gsound_context_play_fullv E self attrs c w)) t"
  using play_fullv_summary [where E = E and self = self and c = c and attrs = attrs and w = w]
  by (auto simp add: case_prod_unfold intro: pending_prefix)

lemma pending_finish:
  "pending (snd (snd (gsound_context_play_full_finish self result error w))) t = pending w t"
  by (simp add: gsound_context_play_full_finish_def g_task_propagate_boolean_def pending_def
      nth_list_update split: option.splits)

lemma pending_completion:
  "pending w t \<Longrightarrow>
   pending (on_ca_play_full_finished E c ident error_code task w) t \<longleftrightarrow> t \<noteq> task"
  by (simp add: on_ca_play_full_finished_def g_task_return_new_error_def
      g_task_return_error_def g_task_return_boolean_def pending_def nth_list_update)


lemma pending_step:
  assumes "pending w t"
  shows "pending (step E a w) t \<longleftrightarrow> (\<forall>c ident error_code. a \<noteq> Completion c ident error_code t)"
proof (cases a)
  case (Init self c error)
  then show ?thesis using assms by (simp add: pending_same_tasks [OF tasks_simple_steps(1)])
next
  case (Open self error)
  then show ?thesis using assms by (simp add: pending_same_tasks [OF tasks_simple_steps(2)])
next
  case (Set_driver self driver error)
  then show ?thesis using assms by (simp add: pending_same_tasks [OF tasks_simple_steps(3)])
next
  case (Change_attrs self error args)
  then show ?thesis using assms by (simp add: pending_same_tasks [OF tasks_simple_steps(4)])
next
  case (Change_attrsv self attrs error)
  then show ?thesis using assms by (simp add: pending_same_tasks [OF tasks_simple_steps(5)])
next
  case (Play_simple self c error args)
  then show ?thesis using assms by (simp add: pending_same_tasks [OF tasks_simple_steps(6)])
next
  case (Play_simplev self attrs c error)
  then show ?thesis using assms by (simp add: pending_same_tasks [OF tasks_simple_steps(7)])
next
  case (Play_full self c args)
  then show ?thesis using assms by (simp add: pending_play_full)
next
  case (Play_fullv self attrs c)
  then show ?thesis using assms by (simp add: pending_play_fullv)
next
  case (Play_full_finish self result error)
  then show ?thesis using assms by (simp add: pending_finish)
next
  case (Cache self error args)
  then show ?thesis using assms by (simp add: pending_same_tasks [OF tasks_simple_steps(8)])
next
  case (Cachev self attrs error)
  then show ?thesis using assms by (simp add: pending_same_tasks [OF tasks_simple_steps(9)])
next
  case (Finalize self)
  then show ?thesis using assms by (simp add: pending_same_tasks [OF tasks_simple_steps(10)])
next
  case (Cancel c)
  have "tasks (g_cancellable_cancel E c w) = tasks w"
    using cancel_keeps_tasks [of E c w] by simp
  from pending_same_tasks [OF this] show ?thesis using assms Cancel by simp
next
  case (Completion c ident error_code task)
  then show ?thesis using assms pending_completion [OF assms, of E c ident error_code task]
    by auto
qed

lemma resolved_same_tasks: "tasks w' = tasks w \<Longrightarrow> resolved w' t = resolved w t"
  by (simp add: resolved_def)

lemma resolved_prefix:
  assumes "take (length (tasks w)) (tasks w') = tasks w"
    and "length (tasks w) \<le> length (tasks w')"
    and "resolved w t"
  shows "resolved w' t"
proof -
  from assms(3) have t: "t < length (tasks w)" "ever_returned (tasks w ! t)"
    by (simp_all add: resolved_def)
  have "take (length (tasks w)) (tasks w') ! t = tasks w' ! t"
    using t(1) by simp
  with assms(1) have "tasks w' ! t = tasks w ! t" by simp
  with t assms(2) show ?thesis by (simp add: resolved_def)
qed

lemma resolved_play_full:
  "resolved w t \<Longrightarrow> resolved (snd (gsound_context_play_full E self c args w)) t"
  using play_full_summary [where E = E and self = self and c = c and args = args and w = w]
  by (auto simp add: case_prod_unfold intro: resolved_prefix)

lemma resolved_play_fullv:
  "resolved w t \<Longrightarrow> resolved (snd (gsound_context_play_fullv E self attrs c w)) t"
  using play_fullv_summary [where E = E and self = self and c = c and attrs = attrs and w = w]
  by (auto simp add: case_prod_unfold intro: resolved_prefix)

lemma resolved_finish:
  "resolved (snd (snd (gsound_context_play_full_finish self result error w))) t = resolved w t"
  by (simp add: gsound_context_play_full_finish_def g_task_propagate_boolean_def resolved_def
      nth_list_update split: option.splits)

lemma resolved_completion:
  "resolved w t \<Longrightarrow> resolved (on_ca_play_full_finished E c ident error_code task w) t"
  by (simp add: on_ca_play_full_finished_def g_task_return_new_error_def
      g_task_return_error_def g_task_return_boolean_def resolved_def nth_list_update)

lemma resolved_step:
  assumes "resolved w t"
  shows "resolved (step E a w) t"
proof (cases a)
  case (Init self c error)
  then show ?thesis using assms by (simp add: resolved_same_tasks [OF tasks_simple_steps(1)])
next
  case (Open self error)
  then show ?thesis using assms by (simp add: resolved_same_tasks [OF tasks_simple_steps(2)])
next
  case (Set_driver self driver error)
  then show ?thesis using assms by (simp add: resolved_same_tasks [OF tasks_simple_steps(3)])
next
  case (Change_attrs self error args)
  then show ?thesis using assms by (simp add: resolved_same_tasks [OF tasks_simple_steps(4)])
next
  case (Change_attrsv self attrs error)
  then show ?thesis using assms by (simp add: resolved_same_tasks [OF tasks_simple_steps(5)])
next
  case (Play_simple self c error args)
  then show ?thesis using assms by (simp add: resolved_same_tasks [OF tasks_simple_steps(6)])
next
  case (Play_simplev self attrs c error)
  then show ?thesis using assms by (simp add: resolved_same_tasks [OF tasks_simple_steps(7)])
next
  case (Play_full self c args)
  then show ?thesis using assms by (simp add: resolved_play_full)
next
  case (Play_fullv self attrs c)
  then show ?thesis using assms by (simp add: resolved_play_fullv)
next
  case (Play_full_finish self result error)
  then show ?thesis using assms by (simp add: resolved_finish)
next
  case (Cache self error args)
  then show ?thesis using assms by (simp add: resolved_same_tasks [OF tasks_simple_steps(8)])
next
  case (Cachev self attrs error)
  then show ?thesis using assms by (simp add: resolved_same_tasks [OF tasks_simple_steps(9)])
next
  case (Finalize self)
  then show ?thesis using assms by (simp add: resolved_same_tasks [OF tasks_simple_steps(10)])
next
  case (Cancel c)
  have "tasks (g_cancellable_cancel E c w) = tasks w"
    using cancel_keeps_tasks [of E c w] by simp
  from resolved_same_tasks [OF this] show ?thesis using assms Cancel by simp
next
  case (Completion c ident error_code task)
  then show ?thesis using assms by (simp add: resolved_completion)
qed

lemma resolved_steps: "resolved w t \<Longrightarrow> resolved (fold (step E) as w) t"
  by (induction as arbitrary: w) (simp_all add: resolved_step)

lemma pending_or_resolved: "t < length (tasks w) \<Longrightarrow> resolved w t \<longleftrightarrow> \<not> pending w t"
  by (simp add: resolved_def pending_def)

lemma completion_resolves:
  "pending w t \<Longrightarrow> resolved (on_ca_play_full_finished E c ident error_code t w) t"
  by (simp add: on_ca_play_full_finished_def g_task_return_new_error_def
      g_task_return_error_def g_task_return_boolean_def resolved_def pending_def)

lemma pending_steps:
  assumes "pending w t"
  shows "pending (fold (step E) as w) t \<longleftrightarrow>
         (\<forall>c ident error_code. Completion c ident error_code t \<notin> set as)"
  using assms
proof (induction as arbitrary: w)
  case Nil
  then show ?case by simp
next
  case (Cons a as)
  show ?case
  proof (cases "\<exists>c ident error_code. a = Completion c ident error_code t")
    case True
    then obtain c ident error_code where a: "a = Completion c ident error_code t" by blast
    have "resolved (step E a w) t"
      using completion_resolves [OF Cons.prems] by (simp add: a)
    then have "resolved (fold (step E) as (step E a w)) t"
      by (rule resolved_steps)
    then have "\<not> pending (fold (step E) (a # as) w) t"
      by (simp add: resolved_def pending_def)
    then show ?thesis using a by auto
  next
    case False
    then have p: "pending (step E a w) t"
      using pending_step [OF Cons.prems, of E a] by simp
    from Cons.IH [OF p] False show ?thesis by auto
  qed
qed























subsection \<open>Initialisation\<close>

text \<open>
  C4. Initialisation is idempotent: on a context that already holds an engine handle,
  gsound_context_real_init returns TRUE at once. The world it returns is the world it was
  given, so no call reached libcanberra (no second ca_context_create), the context is
  unchanged, and the caller's error location is untouched.
\<close>

theorem real_init_idempotent:
  "ca (contexts w self) \<noteq> None \<Longrightarrow>
   gsound_context_real_init E self cancellable error w = (True, error, w)"
  by (simp add: gsound_context_real_init_def)

theorem real_init_idempotent_witness:
  "ca (contexts live_world 0) \<noteq> None \<and>
   gsound_context_real_init accepting_env 0 0 (Some None) live_world =
     (True, Some None, live_world)"
  using real_init_idempotent [of live_world 0 accepting_env 0 "Some None"]
  by (simp add: live_world_def fresh_world_def)

text \<open>
  C9. When ca_context_create fails with the status s, gsound_context_real_init returns
  FALSE, the caller's error is set through g_set_error_literal to the domain GSOUND_ERROR,
  the code s and the message ca_strerror (s), the context still has no handle, and
  ca_context_create is the only call that reached libcanberra.
\<close>

theorem real_init_create_failure:
  assumes "ca (contexts w self) = None"
    and "ca_status E (trace w) Context_create = s"
    and "s \<noteq> CA_SUCCESS"
  shows "\<exists>w'. gsound_context_real_init E self cancellable error w =
           (False, g_set_error_literal error GSOUND_ERROR s (ca_strerror E s), w') \<and>
         ca (contexts w' self) = None \<and>
         events_since w w' = [(Context_create, s)]"
  using assms
  by (simp add: gsound_context_real_init_def native_defs test_return_def Let_def
      events_since_def)

theorem real_init_create_failure_witness:
  "\<exists>w'. gsound_context_real_init create_refusing_env 0 0 (Some None) fresh_world =
     (False,
      Some (Some \<lparr>domain = GSOUND_ERROR, code = CA_ERROR_OOM, message = ''Out of memory''\<rparr>),
      w') \<and>
     ca (contexts w' 0) = None \<and>
     events_since fresh_world w' = [(Context_create, CA_ERROR_OOM)]"
proof -
  have a: "ca (contexts fresh_world 0) = None"
    by (simp add: fresh_world_def)
  have b: "ca_status create_refusing_env (trace fresh_world) Context_create = CA_ERROR_OOM"
    by (simp add: create_refusing_env_def accepting_env_def)
  have c: "CA_ERROR_OOM \<noteq> CA_SUCCESS"
    by (simp add: CA_ERROR_OOM_def CA_SUCCESS_def)
  have d: "ca_strerror create_refusing_env CA_ERROR_OOM = ''Out of memory''"
    by (simp add: create_refusing_env_def example_defs)
  show ?thesis
    using real_init_create_failure [OF a b c, of 0 "Some None"] by (simp add: d)
qed

text \<open>
  C3. When the commit of the default attributes (ca_context_change_props_full) fails
  during gsound_context_real_init, the handle had been created (ca_context_create returned
  CA_SUCCESS), the function returns TRUE, the context holds no handle afterwards, and the
  last call into libcanberra is the destruction of the handle just created. So TRUE from
  initialisation does not mean that the context holds a live handle.
\<close>

theorem real_init_commit_failure_drops_handle:
  assumes "gsound_context_real_init E self cancellable error w = (ok, error', w')"
    and "commits (events_since w w') = [s]"
    and "s \<noteq> CA_SUCCESS"
  shows "ok \<and> ca (contexts w' self) = None \<and>
         creations (events_since w w') = [CA_SUCCESS] \<and>
         (\<exists>s'. last (trace w') = (Context_destroy (Some (ca_new_context E (trace w))), s'))"
  using assms
  by (auto simp add: gsound_context_real_init_def native_defs test_return_def Let_def
        events_since_def clear_proplist_def clear_ca_def
      split: if_splits option.splits)

lemma commit_refusing_run:
  "gsound_context_real_init commit_refusing_env 0 0 (Some None) fresh_world =
     (True,
      Some (Some \<lparr>domain = GSOUND_ERROR, code = CA_ERROR_INVALID,
                   message = ''Invalid argument''\<rparr>),
      \<lparr>contexts = (\<lambda>r. \<lparr>ca = None\<rparr>), tasks = [], connections = [], cancelled = [],
       completed = [],
       trace =
         [(Context_create, CA_SUCCESS),
          (Proplist_create, CA_SUCCESS),
          (Proplist_sets (Some 2) (Some ''application.name'') (Some ''player''), CA_SUCCESS),
          (Context_change_props_full (Some 1) (Some 2), CA_ERROR_INVALID),
          (Proplist_destroy (Some 2), CA_SUCCESS),
          (Context_destroy (Some 1), CA_SUCCESS)]\<rparr>)"
  by (simp add: gsound_context_real_init_def native_defs test_return_def Let_def
      commit_refusing_env_def example_defs clear_proplist_def clear_ca_def
      CA_PROP_APPLICATION_NAME_def fun_eq_iff)

theorem real_init_commit_failure_drops_handle_witness:
  "fst (gsound_context_real_init commit_refusing_env 0 0 (Some None) fresh_world) \<and>
   ca (contexts (snd (snd (gsound_context_real_init commit_refusing_env 0 0 (Some None)
                             fresh_world))) 0) = None \<and>
   commits (events_since fresh_world
     (snd (snd (gsound_context_real_init commit_refusing_env 0 0 (Some None) fresh_world)))) =
     [CA_ERROR_INVALID]"
proof -
  let ?r = "gsound_context_real_init commit_refusing_env 0 0 (Some None) fresh_world"
  have b: "?r = (fst ?r, fst (snd ?r), snd (snd ?r))"
    by simp
  have c: "commits (events_since fresh_world (snd (snd ?r))) = [CA_ERROR_INVALID]"
    unfolding commit_refusing_run by (simp add: events_since_def fresh_world_def)
  have d: "CA_ERROR_INVALID \<noteq> CA_SUCCESS"
    by (simp add: CA_ERROR_INVALID_def CA_SUCCESS_def)
  show ?thesis
    using real_init_commit_failure_drops_handle [OF b c d] c by simp
qed

text \<open>
  C2. The run of gsound_context_real_init in which the handle is created and the commit of
  the defaults is refused with CA_ERROR_INVALID, for a caller that passes an empty error
  location: the function returns TRUE, and the location holds the error of the refused
  commit. The failure is not swallowed: it reaches the caller through the error output.
\<close>

theorem real_init_commit_failure_sets_error:
  "fst (gsound_context_real_init commit_refusing_env 0 0 (Some None) fresh_world) = True \<and>
   fst (snd (gsound_context_real_init commit_refusing_env 0 0 (Some None) fresh_world)) =
     Some (Some \<lparr>domain = GSOUND_ERROR, code = CA_ERROR_INVALID,
                  message = ''Invalid argument''\<rparr>)"
  by (simp add: commit_refusing_run)

subsection \<open>Attribute lists\<close>

text \<open>
  C1. The call gsound_context_play_simple (ctx, NULL, &error, "event.id", "bell",
  "media.role", NULL), in which the key "media.role" is followed by the NULL that ends the
  list: var_args_to_prop_list returns CA_ERROR_INVALID for these arguments, but its status
  is dropped, ca_context_play_full is called, and the function returns TRUE with no error.
  The missing value is not reported, and the native submission is not held back.
\<close>

theorem play_simple_missing_value_still_submits:
  "fst (var_args_to_prop_list accepting_env
          [Some ''event.id'', Some ''bell'', Some ''media.role''] (Some 2) live_world) =
     CA_ERROR_INVALID \<and>
   gsound_context_play_simple accepting_env 0 0 (Some None)
     [Some ''event.id'', Some ''bell'', Some ''media.role''] live_world =
     (True, Some None,
      live_world\<lparr>trace :=
        [(Proplist_create, CA_SUCCESS),
         (Proplist_sets (Some 2) (Some ''event.id'') (Some ''bell''), CA_SUCCESS),
         (Context_play_full (Some 1) 0 (Some 2) None, CA_SUCCESS),
         (Proplist_destroy (Some 2), CA_SUCCESS)]\<rparr>)"
  by (simp add: gsound_context_play_simple_def native_defs test_return_def
      Let_def example_defs clear_proplist_def connect_if_cancellable_def g_direct_hash_def)

text \<open>
  C10, as stated, fails when the property list itself cannot be created: with
  ca_proplist_create answering CA_ERROR_OOM, gsound_context_change_attrsv returns FALSE
  with that error and ca_context_change_props_full is never called.
\<close>

theorem change_attrsv_without_proplist_counterexample:
  "gsound_context_change_attrsv oom_env 0 [(Some ''event.id'', Some ''bell'')] (Some None)
     live_world =
     (False,
      Some (Some \<lparr>domain = GSOUND_ERROR, code = CA_ERROR_OOM, message = ''Out of memory''\<rparr>),
      live_world\<lparr>trace := [(Proplist_create, CA_ERROR_OOM)]\<rparr>) \<and>
   commits (events_since live_world
     (snd (snd (gsound_context_change_attrsv oom_env 0 [(Some ''event.id'', Some ''bell'')]
                  (Some None) live_world)))) = []"
  by (simp add: gsound_context_change_attrsv_def native_defs test_return_def
      Let_def oom_env_def example_defs events_since_def)

text \<open>
  C10, amended. The hash table functions gsound_context_change_attrsv,
  gsound_context_play_simplev, gsound_context_play_fullv and gsound_context_cachev do not
  validate the table and do not look at what ca_proplist_sets answers. Each starts with
  ca_proplist_create. When that succeeds, the calls that follow are one ca_proplist_sets
  for every entry of the table, in order and with the key and value as stored, whatever
  their statuses; then the native call (ca_context_change_props_full, ca_context_play_full
  with the token of the cancellable, ca_context_cache_full) with the handle of the context
  and the new list; after it there is no further submission. The status s that the
  environment gives this one call decides the outcome: TRUE and the error location left as
  it was when s is CA_SUCCESS, FALSE and the error of s otherwise (for
  gsound_context_play_fullv: the task stays pending when s is CA_SUCCESS, and is resolved
  with the error of s otherwise).
  When ca_proplist_create fails with a status, that call is the only one made, the function
  fails, and the error (of the task, for gsound_context_play_fullv) has the domain
  GSOUND_ERROR, that status as code and ca_strerror of it as message.
\<close>

theorem hash_table_operations_submit_once:
  "(case gsound_context_change_attrsv E self attrs error w of
      (ok, error', w') \<Rightarrow>
        (if ca_status E (trace w) Proplist_create = CA_SUCCESS
         then \<exists>evs rest s.
                events_since w w' =
                  (Proplist_create, CA_SUCCESS) # evs @
                  (Context_change_props_full (ca (contexts w self))
                     (Some (ca_new_proplist E (trace w))), s) # rest \<and>
                map fst evs =
                  map (\<lambda>kv. Proplist_sets (Some (ca_new_proplist E (trace w))) (fst kv) (snd kv))
                    attrs \<and>
                silent rest \<and>
                s = ca_status E (trace w @ (Proplist_create, CA_SUCCESS) # evs)
                      (Context_change_props_full (ca (contexts w self))
                         (Some (ca_new_proplist E (trace w)))) \<and>
                (ok \<longleftrightarrow> s = CA_SUCCESS) \<and>
                error' =
                  (if s = CA_SUCCESS then error
                   else g_set_error_literal error GSOUND_ERROR s (ca_strerror E s))
         else events_since w w' = [(Proplist_create, ca_status E (trace w) Proplist_create)] \<and>
              \<not> ok \<and>
              error' = g_set_error_literal error GSOUND_ERROR
                         (ca_status E (trace w) Proplist_create)
                         (ca_strerror E (ca_status E (trace w) Proplist_create)))) \<and>
   (case gsound_context_play_simplev E self attrs c error w of
      (ok, error', w') \<Rightarrow>
        (if ca_status E (trace w) Proplist_create = CA_SUCCESS
         then \<exists>evs rest s.
                events_since w w' =
                  (Proplist_create, CA_SUCCESS) # evs @
                  (Context_play_full (ca (contexts w self)) (g_direct_hash c)
                     (Some (ca_new_proplist E (trace w))) None, s) # rest \<and>
                map fst evs =
                  map (\<lambda>kv. Proplist_sets (Some (ca_new_proplist E (trace w))) (fst kv) (snd kv))
                    attrs \<and>
                silent rest \<and>
                s = ca_status E (trace w @ (Proplist_create, CA_SUCCESS) # evs)
                      (Context_play_full (ca (contexts w self)) (g_direct_hash c)
                         (Some (ca_new_proplist E (trace w))) None) \<and>
                (ok \<longleftrightarrow> s = CA_SUCCESS) \<and>
                error' =
                  (if s = CA_SUCCESS then error
                   else g_set_error_literal error GSOUND_ERROR s (ca_strerror E s))
         else events_since w w' = [(Proplist_create, ca_status E (trace w) Proplist_create)] \<and>
              \<not> ok \<and>
              error' = g_set_error_literal error GSOUND_ERROR
                         (ca_status E (trace w) Proplist_create)
                         (ca_strerror E (ca_status E (trace w) Proplist_create)))) \<and>
   (case gsound_context_play_fullv E self attrs c w of
      (task, w') \<Rightarrow>
        task = length (tasks w) \<and>
        (if ca_status E (trace w) Proplist_create = CA_SUCCESS
         then \<exists>evs rest s.
                events_since w w' =
                  (Proplist_create, CA_SUCCESS) # evs @
                  (Context_play_full (ca (contexts w self)) (g_direct_hash c)
                     (Some (ca_new_proplist E (trace w))) (Some task), s) # rest \<and>
                map fst evs =
                  map (\<lambda>kv. Proplist_sets (Some (ca_new_proplist E (trace w))) (fst kv) (snd kv))
                    attrs \<and>
                silent rest \<and>
                s = ca_status E (trace w @ (Proplist_create, CA_SUCCESS) # evs)
                      (Context_play_full (ca (contexts w self)) (g_direct_hash c)
                         (Some (ca_new_proplist E (trace w))) (Some task)) \<and>
                (if s = CA_SUCCESS then pending w' task \<and> completed w' = completed w
                 else resolved w' task \<and> completed w' = completed w @ [task] \<and>
                      task_error (tasks w' ! task) =
                        Some \<lparr>domain = GSOUND_ERROR, code = s, message = ca_strerror E s\<rparr>)
         else events_since w w' = [(Proplist_create, ca_status E (trace w) Proplist_create)] \<and>
              resolved w' task \<and> completed w' = completed w @ [task] \<and>
              task_error (tasks w' ! task) =
                Some \<lparr>domain = GSOUND_ERROR, code = ca_status E (trace w) Proplist_create,
                      message = ca_strerror E (ca_status E (trace w) Proplist_create)\<rparr>)) \<and>
   (case gsound_context_cachev E self attrs error w of
      (ok, error', w') \<Rightarrow>
        (if ca_status E (trace w) Proplist_create = CA_SUCCESS
         then \<exists>evs rest s.
                events_since w w' =
                  (Proplist_create, CA_SUCCESS) # evs @
                  (Context_cache_full (ca (contexts w self))
                     (Some (ca_new_proplist E (trace w))), s) # rest \<and>
                map fst evs =
                  map (\<lambda>kv. Proplist_sets (Some (ca_new_proplist E (trace w))) (fst kv) (snd kv))
                    attrs \<and>
                silent rest \<and>
                s = ca_status E (trace w @ (Proplist_create, CA_SUCCESS) # evs)
                      (Context_cache_full (ca (contexts w self))
                         (Some (ca_new_proplist E (trace w)))) \<and>
                (ok \<longleftrightarrow> s = CA_SUCCESS) \<and>
                error' =
                  (if s = CA_SUCCESS then error
                   else g_set_error_literal error GSOUND_ERROR s (ca_strerror E s))
         else events_since w w' = [(Proplist_create, ca_status E (trace w) Proplist_create)] \<and>
              \<not> ok \<and>
              error' = g_set_error_literal error GSOUND_ERROR
                         (ca_status E (trace w) Proplist_create)
                         (ca_strerror E (ca_status E (trace w) Proplist_create))))"
  using change_attrsv_run [where E = E and self = self and attrs = attrs and error = error and w = w]
    play_simplev_run
      [where E = E and self = self and c = c and error = error and attrs = attrs and w = w]
    play_fullv_run [where E = E and self = self and c = c and attrs = attrs and w = w]
    cachev_run [where E = E and self = self and attrs = attrs and error = error and w = w]
  by simp

lemma strict_run:
  "gsound_context_change_attrsv strict_env 0 [(Some ''event.id'', None)] (Some None)
     live_world =
     (True, Some None,
      \<lparr>contexts = (\<lambda>r. \<lparr>ca = Some 1\<rparr>), tasks = [], connections = [], cancelled = [],
       completed = [],
       trace =
         [(Proplist_create, CA_SUCCESS),
          (Proplist_sets (Some 2) (Some ''event.id'') None, CA_ERROR_INVALID),
          (Context_change_props_full (Some 1) (Some 2), CA_SUCCESS),
          (Proplist_destroy (Some 2), CA_SUCCESS)]\<rparr>)"
  by (simp add: gsound_context_change_attrsv_def native_defs test_return_def
      Let_def example_defs strict_env_def clear_proplist_def)

theorem hash_table_operations_submit_once_witness:
  "fst (gsound_context_change_attrsv strict_env 0 [(Some ''event.id'', None)] (Some None)
          live_world) \<and>
   events_since live_world
     (snd (snd (gsound_context_change_attrsv strict_env 0 [(Some ''event.id'', None)]
                  (Some None) live_world))) =
     [(Proplist_create, CA_SUCCESS),
      (Proplist_sets (Some 2) (Some ''event.id'') None, CA_ERROR_INVALID),
      (Context_change_props_full (Some 1) (Some 2), CA_SUCCESS),
      (Proplist_destroy (Some 2), CA_SUCCESS)] \<and>
   \<not> fst (gsound_context_cachev oom_env 0 [(Some ''event.id'', Some ''bell'')] (Some None)
            live_world) \<and>
   fst (snd (gsound_context_cachev oom_env 0 [(Some ''event.id'', Some ''bell'')] (Some None)
               live_world)) =
     Some (Some \<lparr>domain = GSOUND_ERROR, code = CA_ERROR_OOM, message = ''Out of memory''\<rparr>)"
proof -
  let ?r = "gsound_context_change_attrsv strict_env 0 [(Some ''event.id'', None)] (Some None)
              live_world"
  have a: "ca_status strict_env (trace live_world) Proplist_create = CA_SUCCESS"
    by (simp add: strict_env_def example_defs)
  have b: "events_since live_world (snd (snd ?r)) =
     [(Proplist_create, CA_SUCCESS),
      (Proplist_sets (Some 2) (Some ''event.id'') None, CA_ERROR_INVALID),
      (Context_change_props_full (Some 1) (Some 2), CA_SUCCESS),
      (Proplist_destroy (Some 2), CA_SUCCESS)]"
    unfolding strict_run by (simp add: events_since_def example_defs)
  have c: "ca_status oom_env (trace live_world) Proplist_create = CA_ERROR_OOM"
    "CA_ERROR_OOM \<noteq> CA_SUCCESS" "ca_strerror oom_env CA_ERROR_OOM = ''Out of memory''"
    by (simp_all add: oom_env_def example_defs)
  have d: "\<And>tr h pl. ca_status strict_env tr (Context_change_props_full h pl) = CA_SUCCESS"
    by (simp add: strict_env_def accepting_env_def)
  have 1: "fst ?r"
    using hash_table_operations_submit_once
      [where E = strict_env and self = 0 and attrs = "[(Some ''event.id'', None)]"
         and error = "Some None" and w = live_world, THEN conjunct1] a d
    by (auto simp add: case_prod_unfold test_return_def)
  have 2: "\<not> fst (gsound_context_cachev oom_env 0 [(Some ''event.id'', Some ''bell'')]
                   (Some None) live_world) \<and>
      fst (snd (gsound_context_cachev oom_env 0 [(Some ''event.id'', Some ''bell'')] (Some None)
               live_world)) =
       Some (Some \<lparr>domain = GSOUND_ERROR, code = CA_ERROR_OOM, message = ''Out of memory''\<rparr>)"
    using hash_table_operations_submit_once
      [where E = oom_env and self = 0 and attrs = "[(Some ''event.id'', Some ''bell'')]"
         and error = "Some None" and w = live_world,
       THEN conjunct2, THEN conjunct2, THEN conjunct2] c
    by (simp add: case_prod_unfold)
  from 1 2 b show ?thesis by simp
qed

subsection \<open>Playing\<close>

text \<open>
  C8. gsound_context_play_simple and gsound_context_play_simplev submit the play and return
  what the submission returned. When ca_proplist_create succeeds, exactly one
  ca_context_play_full is called, with the handle of the context, the token
  g_direct_hash (cancellable), the new property list and no completion callback
  (NULL, NULL); before it come only the creation and the ca_proplist_sets calls, after it
  no submission; the result is TRUE exactly when the status the environment gives this
  call is CA_SUCCESS, and the error is that of the status otherwise. When
  ca_proplist_create fails,
  nothing is submitted and the result is FALSE with that error. In both cases the result is
  TRUE exactly when a ca_context_play_full was called and returned CA_SUCCESS, no
  submission carries a callback, and no task is created or completed: the result does not
  wait for, or depend on, the end of the playback. With a libcanberra that accepts every
  call, both functions return TRUE.
\<close>

theorem play_simple_success_iff_accepted:
  "(case gsound_context_play_simple E self c error args w of
      (ok, error', w') \<Rightarrow>
        (if ca_status E (trace w) Proplist_create = CA_SUCCESS
         then \<exists>evs rest s.
                events_since w w' =
                  (Proplist_create, CA_SUCCESS) # evs @
                  (Context_play_full (ca (contexts w self)) (g_direct_hash c)
                     (Some (ca_new_proplist E (trace w))) None, s) # rest \<and>
                silent evs \<and>
                silent rest \<and>
                s = ca_status E (trace w @ (Proplist_create, CA_SUCCESS) # evs)
                      (Context_play_full (ca (contexts w self)) (g_direct_hash c)
                         (Some (ca_new_proplist E (trace w))) None) \<and>
                (ok \<longleftrightarrow> s = CA_SUCCESS) \<and>
                error' =
                  (if s = CA_SUCCESS then error
                   else g_set_error_literal error GSOUND_ERROR s (ca_strerror E s))
         else events_since w w' = [(Proplist_create, ca_status E (trace w) Proplist_create)] \<and>
              \<not> ok \<and>
              error' = g_set_error_literal error GSOUND_ERROR
                         (ca_status E (trace w) Proplist_create)
                         (ca_strerror E (ca_status E (trace w) Proplist_create))) \<and>
        (ok \<longleftrightarrow> map (\<lambda>p. snd (snd p)) (plays (events_since w w')) = [CA_SUCCESS]) \<and>
        list_all (\<lambda>p. fst (snd p) = None) (plays (events_since w w')) \<and>
        tasks w' = tasks w \<and> completed w' = completed w \<and>
        ((\<forall>tr r. ca_status E tr r = CA_SUCCESS) \<longrightarrow> ok)) \<and>
   (case gsound_context_play_simplev E self attrs c error w of
      (ok, error', w') \<Rightarrow>
        (if ca_status E (trace w) Proplist_create = CA_SUCCESS
         then \<exists>evs rest s.
                events_since w w' =
                  (Proplist_create, CA_SUCCESS) # evs @
                  (Context_play_full (ca (contexts w self)) (g_direct_hash c)
                     (Some (ca_new_proplist E (trace w))) None, s) # rest \<and>
                map fst evs =
                  map (\<lambda>kv. Proplist_sets (Some (ca_new_proplist E (trace w))) (fst kv) (snd kv))
                    attrs \<and>
                silent rest \<and>
                s = ca_status E (trace w @ (Proplist_create, CA_SUCCESS) # evs)
                      (Context_play_full (ca (contexts w self)) (g_direct_hash c)
                         (Some (ca_new_proplist E (trace w))) None) \<and>
                (ok \<longleftrightarrow> s = CA_SUCCESS) \<and>
                error' =
                  (if s = CA_SUCCESS then error
                   else g_set_error_literal error GSOUND_ERROR s (ca_strerror E s))
         else events_since w w' = [(Proplist_create, ca_status E (trace w) Proplist_create)] \<and>
              \<not> ok \<and>
              error' = g_set_error_literal error GSOUND_ERROR
                         (ca_status E (trace w) Proplist_create)
                         (ca_strerror E (ca_status E (trace w) Proplist_create))) \<and>
        (ok \<longleftrightarrow> map (\<lambda>p. snd (snd p)) (plays (events_since w w')) = [CA_SUCCESS]) \<and>
        list_all (\<lambda>p. fst (snd p) = None) (plays (events_since w w')) \<and>
        tasks w' = tasks w \<and> completed w' = completed w \<and>
        ((\<forall>tr r. ca_status E tr r = CA_SUCCESS) \<longrightarrow> ok))"
proof -
  let ?r = "gsound_context_play_simple E self c error args w"
  let ?v = "gsound_context_play_simplev E self attrs c error w"
  note run = play_simple_run
    [where E = E and self = self and c = c and error = error and args = args and w = w]
  note sum = play_simple_summary
    [where E = E and self = self and c = c and error = error and args = args and w = w]
  note runv = play_simplev_run
    [where E = E and self = self and c = c and error = error and attrs = attrs and w = w]
  note sumv = play_simplev_summary
    [where E = E and self = self and c = c and error = error and attrs = attrs and w = w]
  have a: "(fst ?r \<longleftrightarrow>
        map (\<lambda>p. snd (snd p)) (plays (events_since w (snd (snd ?r)))) = [CA_SUCCESS]) \<and>
      list_all (\<lambda>p. fst (snd p) = None) (plays (events_since w (snd (snd ?r)))) \<and>
      tasks (snd (snd ?r)) = tasks w \<and> completed (snd (snd ?r)) = completed w"
    using sum by (auto simp add: case_prod_unfold test_return_def split: if_splits)
  have b: "(\<forall>tr r. ca_status E tr r = CA_SUCCESS) \<longrightarrow> fst ?r"
    using run by (auto simp add: case_prod_unfold test_return_def)
  have av: "(fst ?v \<longleftrightarrow>
        map (\<lambda>p. snd (snd p)) (plays (events_since w (snd (snd ?v)))) = [CA_SUCCESS]) \<and>
      list_all (\<lambda>p. fst (snd p) = None) (plays (events_since w (snd (snd ?v)))) \<and>
      tasks (snd (snd ?v)) = tasks w \<and> completed (snd (snd ?v)) = completed w"
    using sumv by (auto simp add: case_prod_unfold test_return_def split: if_splits)
  have bv: "(\<forall>tr r. ca_status E tr r = CA_SUCCESS) \<longrightarrow> fst ?v"
    using runv by (auto simp add: case_prod_unfold test_return_def)
  show ?thesis
    using run runv a b av bv by (simp add: case_prod_unfold)
qed

lemma simple_run:
  "gsound_context_play_simple accepting_env 0 16 (Some None)
     [Some ''event.id'', Some ''bell''] live_world =
     (True, Some None,
      \<lparr>contexts = (\<lambda>r. \<lparr>ca = Some 1\<rparr>), tasks = [], connections = [(16, 0)], cancelled = [],
       completed = [],
       trace =
         [(Proplist_create, CA_SUCCESS),
          (Proplist_sets (Some 2) (Some ''event.id'') (Some ''bell''), CA_SUCCESS),
          (Context_play_full (Some 1) 16 (Some 2) None, CA_SUCCESS),
          (Proplist_destroy (Some 2), CA_SUCCESS)]\<rparr>)"
  by (simp add: gsound_context_play_simple_def native_defs test_return_def
      Let_def example_defs clear_proplist_def connect_if_cancellable_def
      g_cancellable_connect_def g_cancellable_is_cancelled_def g_direct_hash_def)

lemma simplev_run:
  "gsound_context_play_simplev accepting_env 0 [(Some ''event.id'', Some ''bell'')] 16
     (Some None) live_world =
     (True, Some None,
      \<lparr>contexts = (\<lambda>r. \<lparr>ca = Some 1\<rparr>), tasks = [], connections = [(16, 0)], cancelled = [],
       completed = [],
       trace =
         [(Proplist_create, CA_SUCCESS),
          (Proplist_sets (Some 2) (Some ''event.id'') (Some ''bell''), CA_SUCCESS),
          (Context_play_full (Some 1) 16 (Some 2) None, CA_SUCCESS),
          (Proplist_destroy (Some 2), CA_SUCCESS)]\<rparr>)"
  by (simp add: gsound_context_play_simplev_def native_defs test_return_def
      Let_def example_defs clear_proplist_def connect_if_cancellable_def
      g_cancellable_connect_def g_cancellable_is_cancelled_def g_direct_hash_def)

theorem play_simple_success_iff_accepted_witness:
  "fst (gsound_context_play_simple accepting_env 0 16 (Some None)
          [Some ''event.id'', Some ''bell''] live_world) \<and>
   fst (gsound_context_play_simplev accepting_env 0 [(Some ''event.id'', Some ''bell'')] 16
          (Some None) live_world) \<and>
   plays (events_since live_world
      (snd (snd (gsound_context_play_simple accepting_env 0 16 (Some None)
                   [Some ''event.id'', Some ''bell''] live_world)))) =
     [(16, None, CA_SUCCESS)] \<and>
   plays (events_since live_world
      (snd (snd (gsound_context_play_simplev accepting_env 0
                   [(Some ''event.id'', Some ''bell'')] 16 (Some None) live_world)))) =
     [(16, None, CA_SUCCESS)] \<and>
   \<not> fst (gsound_context_play_simple play_refusing_env 0 16 (Some None)
            [Some ''event.id'', Some ''bell''] live_world) \<and>
   \<not> fst (gsound_context_play_simplev play_refusing_env 0
            [(Some ''event.id'', Some ''bell'')] 16 (Some None) live_world)"
proof -
  have acc: "\<forall>tr r. ca_status accepting_env tr r = CA_SUCCESS"
    by (simp add: accepting_env_def)
  have p1: "plays (events_since live_world
      (snd (snd (gsound_context_play_simple accepting_env 0 16 (Some None)
                   [Some ''event.id'', Some ''bell''] live_world)))) =
     [(16, None, CA_SUCCESS)]"
    unfolding simple_run by (simp add: events_since_def example_defs)
  have p2: "plays (events_since live_world
      (snd (snd (gsound_context_play_simplev accepting_env 0
                   [(Some ''event.id'', Some ''bell'')] 16 (Some None) live_world)))) =
     [(16, None, CA_SUCCESS)]"
    unfolding simplev_run by (simp add: events_since_def example_defs)
  have ok0: "ca_status play_refusing_env (trace live_world) Proplist_create = CA_SUCCESS"
    by (simp add: play_refusing_env_def accepting_env_def)
  have ref: "\<And>tr h tok pl cb.
      ca_status play_refusing_env tr (Context_play_full h tok pl cb) \<noteq> CA_SUCCESS"
    by (simp add: play_refusing_env_def accepting_env_def CA_ERROR_INVALID_def CA_SUCCESS_def)
  note t = play_simple_success_iff_accepted
    [where E = accepting_env and self = 0 and c = 16 and error = "Some None"
       and args = "[Some ''event.id'', Some ''bell'']"
       and attrs = "[(Some ''event.id'', Some ''bell'')]" and w = live_world]
  note r = play_simple_success_iff_accepted
    [where E = play_refusing_env and self = 0 and c = 16 and error = "Some None"
       and args = "[Some ''event.id'', Some ''bell'']"
       and attrs = "[(Some ''event.id'', Some ''bell'')]" and w = live_world]
  have 1: "fst (gsound_context_play_simple accepting_env 0 16 (Some None)
          [Some ''event.id'', Some ''bell''] live_world) \<and>
        fst (gsound_context_play_simplev accepting_env 0 [(Some ''event.id'', Some ''bell'')] 16
          (Some None) live_world)"
    using t acc by (auto simp add: case_prod_unfold)
  have 2: "\<not> fst (gsound_context_play_simple play_refusing_env 0 16 (Some None)
            [Some ''event.id'', Some ''bell''] live_world) \<and>
        \<not> fst (gsound_context_play_simplev play_refusing_env 0
            [(Some ''event.id'', Some ''bell'')] 16 (Some None) live_world)"
    using r ok0 ref by (auto simp add: case_prod_unfold test_return_def)
  from 1 2 p1 p2 show ?thesis by simp
qed

text \<open>
  C7. The token of a request is g_direct_hash of the cancellable, a function of the
  address of the cancellable alone: each of the four play functions submits with exactly
  this token (once, when the property list could be created), whatever the environment,
  the world, the context and the attributes are; on_cancellable_cancelled passes the same
  token to ca_context_cancel, and so does every call that g_cancellable_cancel causes.
\<close>

theorem request_token_is_hash_of_cancellable:
  "map fst (plays (events_since w
      (snd (snd (gsound_context_play_simple E self c error args w))))) =
     (if ca_status E (trace w) Proplist_create = CA_SUCCESS then [g_direct_hash c] else []) \<and>
   map fst (plays (events_since w
      (snd (snd (gsound_context_play_simplev E self attrs c error w))))) =
     (if ca_status E (trace w) Proplist_create = CA_SUCCESS then [g_direct_hash c] else []) \<and>
   map fst (plays (events_since w (snd (gsound_context_play_full E self c args w)))) =
     (if ca_status E (trace w) Proplist_create = CA_SUCCESS then [g_direct_hash c] else []) \<and>
   map fst (plays (events_since w (snd (gsound_context_play_fullv E self attrs c w)))) =
     (if ca_status E (trace w) Proplist_create = CA_SUCCESS then [g_direct_hash c] else []) \<and>
   map snd (cancels (events_since w' (on_cancellable_cancelled E' c self' w'))) =
     [g_direct_hash c] \<and>
   set (map snd (cancels (events_since w' (g_cancellable_cancel E' c w')))) \<subseteq>
     {g_direct_hash c}"
proof -
  have 1: "map fst (plays (events_since w
      (snd (snd (gsound_context_play_simple E self c error args w))))) =
     (if ca_status E (trace w) Proplist_create = CA_SUCCESS then [g_direct_hash c] else [])"
    using play_simple_summary [where E = E and self = self and c = c and error = error and args = args and w = w]
    by (auto simp add: case_prod_unfold)
  have 2: "map fst (plays (events_since w
      (snd (snd (gsound_context_play_simplev E self attrs c error w))))) =
     (if ca_status E (trace w) Proplist_create = CA_SUCCESS then [g_direct_hash c] else [])"
    using play_simplev_summary [where E = E and self = self and attrs = attrs and c = c and error = error and w = w]
    by (auto simp add: case_prod_unfold)
  have 3: "map fst (plays (events_since w (snd (gsound_context_play_full E self c args w)))) =
     (if ca_status E (trace w) Proplist_create = CA_SUCCESS then [g_direct_hash c] else [])"
    using play_full_summary [where E = E and self = self and c = c and args = args and w = w]
    by (auto simp add: case_prod_unfold)
  have 4: "map fst (plays (events_since w (snd (gsound_context_play_fullv E self attrs c w)))) =
     (if ca_status E (trace w) Proplist_create = CA_SUCCESS then [g_direct_hash c] else [])"
    using play_fullv_summary [where E = E and self = self and attrs = attrs and c = c and w = w]
    by (auto simp add: case_prod_unfold)
  have 5: "map snd (cancels (events_since w' (on_cancellable_cancelled E' c self' w'))) =
     [g_direct_hash c]"
    by (simp add: on_cancellable_cancelled_effect events_since_def)
  from g_cancellable_cancel_frame [of E' c w'] obtain evs cs' where
    f: "g_cancellable_cancel E' c w' = w'\<lparr>cancelled := cs', trace := trace w' @ evs\<rparr>"
      "set (map snd (cancels evs)) \<subseteq> {g_direct_hash c}"
    by blast
  have 6: "set (map snd (cancels (events_since w' (g_cancellable_cancel E' c w')))) \<subseteq>
     {g_direct_hash c}"
    unfolding f(1) using f(2) by (simp add: events_since_def)
  from 1 2 3 4 5 6 show ?thesis by blast
qed

lemma played_world_eq:
  "played_world =
     \<lparr>contexts = (\<lambda>r. \<lparr>ca = Some 1\<rparr>),
      tasks = [\<lparr>source_object = 0, task_cancellable = 16, ever_returned = False,
                task_error = None, result_set = False, result_boolean = False\<rparr>],
      connections = [(16, 0)], cancelled = [], completed = [],
      trace =
        [(Proplist_create, CA_SUCCESS),
         (Proplist_sets (Some 2) (Some ''event.id'') (Some ''bell''), CA_SUCCESS),
         (Context_play_full (Some 1) 16 (Some 2) (Some 0), CA_SUCCESS),
         (Proplist_destroy (Some 2), CA_SUCCESS)]\<rparr>"
  by (simp add: played_world_def gsound_context_play_full_def native_defs test_return_def
      Let_def example_defs clear_proplist_def connect_if_cancellable_def
      g_cancellable_connect_def g_cancellable_is_cancelled_def g_task_new_def
      g_direct_hash_def)

theorem request_token_is_hash_of_cancellable_witness:
  "map fst (plays (events_since live_world
      (snd (snd (gsound_context_play_simple accepting_env 0 16 (Some None)
                   [Some ''event.id'', Some ''bell''] live_world))))) = [16] \<and>
   map fst (plays (events_since live_world
      (snd (gsound_context_play_full accepting_env 0 16
              [Some ''event.id'', Some ''bell''] live_world)))) = [16] \<and>
   map snd (cancels (events_since played_world
      (on_cancellable_cancelled accepting_env 16 0 played_world))) = [16]"
  using request_token_is_hash_of_cancellable
    [where E = accepting_env and w = live_world and c = 16 and self = 0 and error = "Some None"
       and args = "[Some ''event.id'', Some ''bell'']" and E' = accepting_env
       and w' = played_world and self' = 0]
  by (simp add: example_defs g_direct_hash_def)

subsection \<open>Completion and cancellation of an asynchronous play\<close>





text \<open>
  C6. Cancellation never resolves a pending play. The listener on_cancellable_cancelled
  makes one call, ca_context_cancel with the handle of the context and the token
  g_direct_hash (cancellable), and changes nothing else in the world. g_cancellable_cancel
  leaves every task and the delivered completions as they were, and all it sends to
  libcanberra are ca_context_cancel calls with the token of the cancellable. Over any
  sequence of transitions (calls of the functions of the file, cancellations, completion
  callbacks), a pending task is still pending at the end exactly when the sequence holds no
  run of the completion callback on_ca_play_full_finished for this task.
\<close>

theorem cancellation_only_forwards:
  "on_cancellable_cancelled E c self w =
     w\<lparr>trace := trace w @
        [(Context_cancel (ca (contexts w self)) (g_direct_hash c),
          ca_status E (trace w) (Context_cancel (ca (contexts w self)) (g_direct_hash c)))]\<rparr> \<and>
   tasks (g_cancellable_cancel E c w) = tasks w \<and>
   completed (g_cancellable_cancel E c w) = completed w \<and>
   length (cancels (events_since w (g_cancellable_cancel E c w))) =
     length (events_since w (g_cancellable_cancel E c w)) \<and>
   set (map snd (cancels (events_since w (g_cancellable_cancel E c w)))) \<subseteq> {g_direct_hash c} \<and>
   (pending w t \<longrightarrow>
      (pending (fold (step E) as w) t \<longleftrightarrow>
         (\<forall>h ident error_code. Completion h ident error_code t \<notin> set as)))"
proof -
  from g_cancellable_cancel_frame [of E c w] obtain evs cs' where
    f: "g_cancellable_cancel E c w = w\<lparr>cancelled := cs', trace := trace w @ evs\<rparr>"
      "set (map snd (cancels evs)) \<subseteq> {g_direct_hash c}"
      "length (cancels evs) = length evs"
    by blast
  have ev: "events_since w (g_cancellable_cancel E c w) = evs"
    unfolding f(1) by (simp add: events_since_def)
  have "pending w t \<longrightarrow>
      (pending (fold (step E) as w) t \<longleftrightarrow>
         (\<forall>h ident error_code. Completion h ident error_code t \<notin> set as))"
    using pending_steps [of w t E as] by blast
  then show ?thesis
    using f(2) f(3) cancel_keeps_tasks [of E c w]
    by (simp add: ev on_cancellable_cancelled_effect)
qed

theorem cancellation_only_forwards_witness:
  "pending played_world 0 \<and>
   pending (fold (step accepting_env)
              [Cancel 16, Play_simple 0 16 (Some None) [Some ''event.id'', Some ''bell''],
               Cancel 32] played_world) 0 \<and>
   \<not> pending (fold (step accepting_env)
                [Cancel 16, Completion (Some 1) 16 CA_ERROR_CANCELED 0] played_world) 0 \<and>
   events_since played_world (g_cancellable_cancel accepting_env 16 played_world) =
     [(Context_cancel (Some 1) 16, CA_SUCCESS)]"
proof -
  have a: "pending played_world 0"
    unfolding played_world_eq by (simp add: pending_def)
  have b: "events_since played_world (g_cancellable_cancel accepting_env 16 played_world) =
     [(Context_cancel (Some 1) 16, CA_SUCCESS)]"
    unfolding played_world_eq
    by (simp add: events_since_def g_cancellable_cancel_def on_cancellable_cancelled_def
        native_defs Let_def example_defs g_direct_hash_def)
  show ?thesis
    using cancellation_only_forwards
      [where E = accepting_env and w = played_world and t = 0 and
         as = "[Cancel 16, Play_simple 0 16 (Some None) [Some ''event.id'', Some ''bell''],
                Cancel 32]"]
      cancellation_only_forwards
      [where E = accepting_env and w = played_world and t = 0 and
         as = "[Cancel 16, Completion (Some 1) 16 CA_ERROR_CANCELED 0]"]
      a b
    by simp
qed

end
